theory Spec2Isabelle
  imports Complex_Main "HOL-Library.Word"
begin

unbundle bit_operations_syntax

section \<open>Data model of the SQLVM built-in function evaluator\<close>

text \<open>
  The source is \<^verbatim>\<open>core/vm/sqlvm/runtime/functions.go\<close>. Go's \<^verbatim>\<open>byte\<close> is an 8-bit word,
  \<^verbatim>\<open>uint64\<close> a 64-bit word. A \<^verbatim>\<open>decimal.Decimal\<close> is an arbitrary-precision decimal
  fraction; its subtraction and comparison are exact, so it is embedded in the rationals.
  A Go slice \<^verbatim>\<open>[]T\<close> is a list of its elements.
\<close>

type_synonym byte = "8 word"
type_synonym uint64 = "64 word"
type_synonym Decimal = rat

text \<open>
  Modelled from the spec: the type descriptor \<^verbatim>\<open>ast.DataType\<close> is declared outside
  functions.go. It combines a major kind and a size parameter; the six majors below are the
  ones functions.go names, \<open>DataTypeMajorOther\<close> stands for every major it does not name
  (the \<^verbatim>\<open>default\<close> branches).
\<close>

datatype DataTypeMajor =
    DataTypeMajorUint
  | DataTypeMajorInt
  | DataTypeMajorFixed
  | DataTypeMajorFixedBytes
  | DataTypeMajorAddress
  | DataTypeMajorDynamicBytes
  | DataTypeMajorOther

datatype DataType = ComposeDataType DataTypeMajor nat

fun DecomposeDataType :: "DataType \<Rightarrow> DataTypeMajor \<times> nat" where
  "DecomposeDataType (ComposeDataType dMajor dMinor) = (dMajor, dMinor)"

text \<open>
  \<^verbatim>\<open>Raw\<close> has the two fields functions.go reads and writes, \<^verbatim>\<open>Value\<close> and \<^verbatim>\<open>Bytes\<close>.
  \<^verbatim>\<open>Bytes\<close> is a Go slice, which has a length and a capacity: \<open>Bytes\<close> holds its elements
  and \<open>Spare\<close> the elements of its backing array between its length and its capacity.
  A nil slice and a slice fresh from \<^verbatim>\<open>make([]byte, n)\<close> have no spare elements; a slice
  expression \<^verbatim>\<open>b[start:end]\<close> may leave some and may reach into them (it is bounded by
  the capacity, not by the length). \<^verbatim>\<open>&Raw{}\<close> is the record with value 0 and no bytes.
  A \<^verbatim>\<open>Tuple\<close> is a row, an \<^verbatim>\<open>Operand\<close> a schema with rows.
\<close>

record Raw =
  Value :: Decimal
  Bytes :: "byte list"
  Spare :: "byte list"

type_synonym Tuple = "Raw list"

record Operand =
  IsImmediate :: bool
  Meta :: "DataType list"
  Data :: "Tuple list"

record Instruction =
  Input :: "Operand list"

text \<open>
  Every way a call can fail is a value: the three error codes functions.go returns, an
  error value handed back by a function of another package (\<open>ErrorExternal\<close>), and a Go
  runtime panic (explicit \<^verbatim>\<open>panic\<close>, index or slice bounds out of range).
  A Go result pair \<^verbatim>\<open>(result, err)\<close> is the sum \<open>failure + result\<close>: callers read the
  result only when \<^verbatim>\<open>err == nil\<close>.
\<close>

datatype failure =
    ErrorCodeInvalidOperandNum
  | ErrorCodeInvalidDataType
  | ErrorCodeIndexOutOfRange
  | ErrorExternal
  | Panic

text \<open>The fields of \<^verbatim>\<open>common.Context\<close> that the modelled evaluators read or advance.\<close>

record Context =
  BlockNumber :: int
  GetHash :: "uint64 \<Rightarrow> byte list"
  Randomness :: "byte list"
  Origin :: "byte list"
  GetNonce :: "byte list \<Rightarrow> uint64"
  RandCallIndex :: uint64

text \<open>
  Functions that functions.go calls and that are defined elsewhere are parameters of the
  model, collected in one record: the decimal codec of package \<^verbatim>\<open>ast\<close>, the hash of
  package \<^verbatim>\<open>crypto\<close>, and two helpers of package \<^verbatim>\<open>runtime\<close>.
  \<^verbatim>\<open>DecimalDecode\<close> returns Go's pair, since \<^verbatim>\<open>fnRand\<close> drops its error.
\<close>

record Externals =
  DecimalEncode :: "DataType \<Rightarrow> Decimal \<Rightarrow> failure + byte list"
  DecimalDecode :: "DataType \<Rightarrow> byte list \<Rightarrow> Decimal \<times> failure option"
  DecimalToUint64 :: "Decimal \<Rightarrow> failure + uint64"
  Keccak256 :: "byte list list \<Rightarrow> byte list"
  findMaxDataLength :: "Operand list \<Rightarrow> failure + int"
  toUint64 :: "Operand \<Rightarrow> failure + uint64 list"

text \<open>Modelled from the spec: the constant \<^verbatim>\<open>dec.Dec257\<close> is declared outside functions.go;
  the window of the block-hash function is \<open>cur - 257 < num < cur\<close>.\<close>

definition Dec257 :: Decimal where
  "Dec257 = 257"

section \<open>Slices and loops\<close>

text \<open>Reading a slice element: Go panics when the index is out of range.\<close>

definition elemAt :: "'a list \<Rightarrow> nat \<Rightarrow> failure + 'a" where
  "elemAt xs i = (if i < length xs then Inr (xs ! i) else Inl Panic)"

text \<open>A loop that fills a fresh slice element by element and stops at the first failure.\<close>

primrec mapF :: "('a \<Rightarrow> failure + 'b) \<Rightarrow> 'a list \<Rightarrow> failure + 'b list" where
  "mapF f [] = Inr []"
| "mapF f (x # xs) =
     (case f x of
        Inl err \<Rightarrow> Inl err
      | Inr y \<Rightarrow> (case mapF f xs of Inl err \<Rightarrow> Inl err | Inr ys \<Rightarrow> Inr (y # ys)))"

section \<open>Block hash\<close>

text \<open>\<^verbatim>\<open>evalBlockHash\<close>, lines 121 to 134 of functions.go. The conversion of \<open>num\<close> is
  attempted only inside the window; its error is returned as it is. The lookup's hash is
  handed over as the slice of a whole array, which has no spare elements.\<close>

definition evalBlockHash :: "Externals \<Rightarrow> Context \<Rightarrow> Decimal \<Rightarrow> Decimal \<Rightarrow> failure + Raw" where
  "evalBlockHash X ctx num cur =
     (let r = \<lparr>Value = 0, Bytes = replicate 32 0, Spare = []\<rparr>;
          cNum = cur - Dec257
      in if num > cNum \<and> num < cur
         then (case DecimalToUint64 X num of
                 Inl err \<Rightarrow> Inl err
               | Inr num64 \<Rightarrow> Inr (r\<lparr>Bytes := GetHash ctx num64, Spare := []\<rparr>))
         else Inr r)"

section \<open>Columnar container\<close>

text \<open>
  \<^verbatim>\<open>assignFuncResult\<close> calls the generator \<^verbatim>\<open>fn\<close> once per row, in row order. A Go closure
  that mutates captured variables is a function on the captured state \<open>'s\<close>.
\<close>

primrec assignRows :: "('s \<Rightarrow> Raw \<times> 's) \<Rightarrow> nat \<Rightarrow> 's \<Rightarrow> Tuple list \<times> 's" where
  "assignRows fn 0 s = ([], s)"
| "assignRows fn (Suc n) s =
     (let (r, s') = fn s; (rows, s'') = assignRows fn n s' in ([r] # rows, s''))"

definition assignFuncResult ::
    "DataType list \<Rightarrow> ('s \<Rightarrow> Raw \<times> 's) \<Rightarrow> uint64 \<Rightarrow> 's \<Rightarrow> Operand \<times> 's" where
  "assignFuncResult meta fn len s =
     (let (rows, s') = assignRows fn (unat len) s
      in (\<lparr>IsImmediate = False, Meta = meta, Data = rows\<rparr>, s'))"

text \<open>Modelled from the spec: \<^verbatim>\<open>Raw.clone\<close> and \<^verbatim>\<open>Operand.clone\<close> are defined outside
  functions.go. Cloning duplicates the underlying storage, so on values it is the identity;
  \<^verbatim>\<open>clone(true)\<close> copies the schema and the flag and leaves the rows empty.\<close>

definition Raw_clone :: "Raw \<Rightarrow> Raw" where
  "Raw_clone r = r"

definition Operand_clone :: "Operand \<Rightarrow> bool \<Rightarrow> Operand" where
  "Operand_clone op metaOnly = (if metaOnly then op\<lparr>Data := []\<rparr> else op)"

text \<open>\<^verbatim>\<open>fnBlockHash\<close>, lines 136 to 164. A scalar operand is evaluated once and the result
  repeated; otherwise row \<open>i\<close> of the result comes from row \<open>i\<close> of the operand, and a
  missing row or column is an index panic.\<close>

definition fnBlockHash :: "Externals \<Rightarrow> Context \<Rightarrow> Instruction \<Rightarrow> uint64 \<Rightarrow> failure + Operand" where
  "fnBlockHash X ctx ins len =
     (if length (Input ins) \<noteq> 1 then Inl ErrorCodeInvalidOperandNum
      else
        let meta = [ComposeDataType DataTypeMajorFixedBytes 3];
            cNum = of_int (BlockNumber ctx);
            cell = (\<lambda>i. case elemAt (Data (Input ins ! 0)) i of
                             Inl err \<Rightarrow> Inl err
                           | Inr t \<Rightarrow> (case elemAt t 0 of
                                         Inl err \<Rightarrow> Inl err
                                       | Inr r0 \<Rightarrow> evalBlockHash X ctx (Value r0) cNum))
        in if IsImmediate (Input ins ! 0)
           then (case cell 0 of
                   Inl err \<Rightarrow> Inl err
                 | Inr r \<Rightarrow> Inr (fst (assignFuncResult meta (\<lambda>u. (Raw_clone r, u)) len ())))
           else (case mapF cell [0..<unat len] of
                   Inl err \<Rightarrow> Inl err
                 | Inr rs \<Rightarrow> Inr \<lparr>IsImmediate = False, Meta = meta, Data = map (\<lambda>r. [r]) rs\<rparr>))"

section \<open>Randomness\<close>

text \<open>
  \<^verbatim>\<open>binary.PutUvarint\<close> of the Go standard library writes \<open>x\<close> in base 128, low group
  first, into the front of the buffer and leaves the rest of the buffer as it was. The
  model returns the buffer; \<^verbatim>\<open>fnRand\<close> drops the byte count. Go panics when the
  buffer is too short; the buffers of \<^verbatim>\<open>fnRand\<close> have \<open>MaxVarintLen64\<close> bytes and a
  \<^verbatim>\<open>uint64\<close> takes at most ten groups (lemma \<open>uvarint_length_le\<close> below), so every
  write of the model is inside the buffer.
\<close>

definition MaxVarintLen64 :: nat where
  "MaxVarintLen64 = 10"

function PutUvarint_loop :: "byte list \<Rightarrow> uint64 \<Rightarrow> nat \<Rightarrow> byte list" where
  "PutUvarint_loop buf x i =
     (if x \<ge> 0x80
      then PutUvarint_loop (buf[i := ucast x OR 0x80]) (drop_bit 7 x) (i + 1)
      else buf[i := ucast x])"
  by pat_completeness auto
termination
proof (relation "measure (\<lambda>(buf, x, i). unat x)")
  show "wf (measure (\<lambda>(buf, x, i). unat x))" by simp
next
  fix buf :: "byte list" and x :: uint64 and i :: nat
  assume "x \<ge> 0x80"
  then have "128 \<le> unat x" by (simp add: word_le_nat_alt)
  then have "unat x div 2 ^ 7 < unat x" by simp
  moreover have "unat (drop_bit 7 x) = unat x div 2 ^ 7"
    by (subst unat_drop_bit_eq) (rule drop_bit_eq_div)
  ultimately have "unat (drop_bit 7 x) < unat x" by simp
  then show "((buf[i := ucast x OR 0x80], drop_bit 7 x, i + 1), (buf, x, i))
               \<in> measure (\<lambda>(buf, x, i). unat x)"
    by (simp only: in_measure prod.case)
qed

definition PutUvarint :: "byte list \<Rightarrow> uint64 \<Rightarrow> byte list" where
  "PutUvarint buf x = PutUvarint_loop buf x 0"

text \<open>
  The bytes \<^verbatim>\<open>PutUvarint\<close> writes, as a list of their own (what Go's
  \<^verbatim>\<open>binary.AppendUvarint\<close> appends to an empty slice). It is used to state what the
  buffer holds after a write.
\<close>

function uvarint :: "uint64 \<Rightarrow> byte list" where
  "uvarint x = (if x \<ge> 0x80 then (ucast x OR 0x80) # uvarint (drop_bit 7 x) else [ucast x])"
  by pat_completeness auto
termination
proof (relation "measure unat")
  show "wf (measure unat)" by simp
next
  fix x :: uint64
  assume "x \<ge> 0x80"
  then have "128 \<le> unat x" by (simp add: word_le_nat_alt)
  then have "unat x div 2 ^ 7 < unat x" by simp
  moreover have "unat (drop_bit 7 x) = unat x div 2 ^ 7"
    by (subst unat_drop_bit_eq) (rule drop_bit_eq_div)
  ultimately have "unat (drop_bit 7 x) < unat x" by simp
  then show "(drop_bit 7 x, x) \<in> measure unat"
    by (simp only: in_measure)
qed

text \<open>
  \<^verbatim>\<open>fnRand\<close>, lines 237 to 263. Its closure captures the index buffer and the context;
  both persist from one row to the next. The error of \<^verbatim>\<open>DecimalDecode\<close> is dropped, as in
  the source. The call itself never fails.
\<close>

definition fnRand_fn ::
    "Externals \<Rightarrow> byte list \<Rightarrow> DataType \<Rightarrow> byte list \<times> Context \<Rightarrow> Raw \<times> (byte list \<times> Context)" where
  "fnRand_fn X binaryOriginNonce vType s =
     (let (binaryUsedIndex, ctx) = s;
          binaryUsedIndex' = PutUvarint binaryUsedIndex (RandCallIndex ctx);
          ctx' = ctx\<lparr>RandCallIndex := RandCallIndex ctx + 1\<rparr>;
          hash = Keccak256 X [Randomness ctx', Origin ctx', binaryOriginNonce, binaryUsedIndex'];
          (v, _) = DecimalDecode X vType hash
      in (\<lparr>Value = v, Bytes = [], Spare = []\<rparr>, (binaryUsedIndex', ctx')))"

definition fnRand ::
    "Externals \<Rightarrow> Context \<Rightarrow> Instruction \<Rightarrow> uint64 \<Rightarrow> (failure + Operand) \<times> Context" where
  "fnRand X ctx ins len =
     (let binaryOriginNonce = PutUvarint (replicate MaxVarintLen64 0) (GetNonce ctx (Origin ctx));
          binaryUsedIndex = replicate MaxVarintLen64 0;
          vType = ComposeDataType DataTypeMajorUint 31;
          (result, s') = assignFuncResult [ComposeDataType DataTypeMajorUint 31]
                           (fnRand_fn X binaryOriginNonce vType) len (binaryUsedIndex, ctx)
      in (Inr result, snd s'))"

section \<open>Type-compatibility guards\<close>

text \<open>\<^verbatim>\<open>metaBitOp\<close>, lines 265 to 274.\<close>

definition metaBitOp :: "DataType \<Rightarrow> bool" where
  "metaBitOp dType =
     (let (dMajor, _) = DecomposeDataType dType
      in case dMajor of
           DataTypeMajorUint \<Rightarrow> True
         | DataTypeMajorInt \<Rightarrow> True
         | DataTypeMajorFixedBytes \<Rightarrow> True
         | _ \<Rightarrow> False)"

text \<open>Modelled from the spec: \<^verbatim>\<open>metaAll\<close>, \<^verbatim>\<open>metaAllEq\<close> and \<^verbatim>\<open>metaAllDynBytes\<close> are
  defined outside functions.go. A guard holds when every column of the schema satisfies
  the predicate; two schemas are compatible when they are element-wise identical; a kind is
  byte-sequence-valued when its representation is a byte sequence, which in
  \<^verbatim>\<open>toBytes\<close> are the fixed-length bytes, address and dynamic-length bytes kinds.\<close>

definition metaAll :: "Operand \<Rightarrow> (DataType \<Rightarrow> bool) \<Rightarrow> bool" where
  "metaAll op fn = list_all fn (Meta op)"

definition metaAllEq :: "Operand \<Rightarrow> Operand \<Rightarrow> bool" where
  "metaAllEq op1 op2 = (Meta op1 = Meta op2)"

definition metaDynBytes :: "DataType \<Rightarrow> bool" where
  "metaDynBytes dType =
     (let (dMajor, _) = DecomposeDataType dType
      in case dMajor of
           DataTypeMajorFixedBytes \<Rightarrow> True
         | DataTypeMajorAddress \<Rightarrow> True
         | DataTypeMajorDynamicBytes \<Rightarrow> True
         | _ \<Rightarrow> False)"

definition metaAllDynBytes :: "Operand \<Rightarrow> bool" where
  "metaAllDynBytes op = metaAll op metaDynBytes"

definition metaAllBitOp :: "Operand \<Rightarrow> bool" where
  "metaAllBitOp op = metaAll op metaBitOp"

text \<open>\<^verbatim>\<open>extractOps\<close>, lines 278 to 295: the operand count is tested with \<^verbatim>\<open>len(ops) < 2\<close>,
  the row counts are checked before the types, and only the first operand's columns are
  tested for bit-operability (the second has the same schema).\<close>

definition extractOps :: "Externals \<Rightarrow> Operand list \<Rightarrow> failure + (int \<times> Operand \<times> Operand)" where
  "extractOps X ops =
     (if length ops < 2 then Inl ErrorCodeInvalidOperandNum
      else case findMaxDataLength X ops of
             Inl err \<Rightarrow> Inl err
           | Inr n \<Rightarrow>
               (let op1 = ops ! 0; op2 = ops ! 1
                in if \<not> metaAllEq op1 op2 \<or> \<not> metaAllBitOp op1
                   then Inl ErrorCodeInvalidDataType
                   else Inr (n, op1, op2)))"

section \<open>Value codec adapter\<close>

text \<open>\<^verbatim>\<open>Raw.toBytes\<close> and \<^verbatim>\<open>Raw.fromBytes\<close>, lines 297 to 335. An error of the codec and
  an unrecognized major kind are panics. The callers of \<^verbatim>\<open>toBytes\<close> read the length and
  the elements of the slice it returns, so the model returns the elements; both callers
  of \<^verbatim>\<open>fromBytes\<close> pass a slice fresh from \<^verbatim>\<open>make\<close>, which has no spare elements.\<close>

definition toBytes :: "Externals \<Rightarrow> Raw \<Rightarrow> DataType \<Rightarrow> failure + byte list" where
  "toBytes X r dType =
     (let (dMajor, _) = DecomposeDataType dType;
          encode = (case DecimalEncode X dType (Value r) of
                      Inl err \<Rightarrow> Inl Panic
                    | Inr bytes \<Rightarrow> Inr bytes)
      in case dMajor of
           DataTypeMajorFixedBytes \<Rightarrow> Inr (Bytes r)
         | DataTypeMajorAddress \<Rightarrow> Inr (Bytes r)
         | DataTypeMajorDynamicBytes \<Rightarrow> Inr (Bytes r)
         | DataTypeMajorUint \<Rightarrow> encode
         | DataTypeMajorInt \<Rightarrow> encode
         | DataTypeMajorFixed \<Rightarrow> encode
         | DataTypeMajorOther \<Rightarrow> Inl Panic)"

definition fromBytes :: "Externals \<Rightarrow> Raw \<Rightarrow> byte list \<Rightarrow> DataType \<Rightarrow> failure + Raw" where
  "fromBytes X r bytes dType =
     (let (dMajor, _) = DecomposeDataType dType;
          decode = (case DecimalDecode X dType bytes of
                      (v, None) \<Rightarrow> Inr (r\<lparr>Value := v\<rparr>)
                    | (v, Some err) \<Rightarrow> Inl Panic)
      in case dMajor of
           DataTypeMajorFixedBytes \<Rightarrow> Inr (r\<lparr>Bytes := bytes, Spare := []\<rparr>)
         | DataTypeMajorAddress \<Rightarrow> Inr (r\<lparr>Bytes := bytes, Spare := []\<rparr>)
         | DataTypeMajorDynamicBytes \<Rightarrow> Inr (r\<lparr>Bytes := bytes, Spare := []\<rparr>)
         | DataTypeMajorUint \<Rightarrow> decode
         | DataTypeMajorInt \<Rightarrow> decode
         | DataTypeMajorFixed \<Rightarrow> decode
         | DataTypeMajorOther \<Rightarrow> Inl Panic)"

section \<open>Bitwise operations\<close>

text \<open>\<^verbatim>\<open>Raw.bitBinOp\<close> (lines 365 to 381) and \<^verbatim>\<open>Tuple.bitBinOp\<close> (lines 357 to 363).
  The result value starts as \<^verbatim>\<open>&Raw{}\<close>.\<close>

definition Raw_bitBinOp ::
    "Externals \<Rightarrow> Raw \<Rightarrow> Raw \<Rightarrow> DataType \<Rightarrow> (byte \<Rightarrow> byte \<Rightarrow> byte) \<Rightarrow> failure + Raw" where
  "Raw_bitBinOp X r r2 dType bFn =
     (case toBytes X r dType of
        Inl err \<Rightarrow> Inl err
      | Inr bytes1 \<Rightarrow>
          (case toBytes X r2 dType of
             Inl err \<Rightarrow> Inl err
           | Inr bytes2 \<Rightarrow>
               if length bytes1 \<noteq> length bytes2 then Inl Panic
               else fromBytes X \<lparr>Value = 0, Bytes = [], Spare = []\<rparr> (map2 bFn bytes1 bytes2) dType))"

definition Tuple_bitBinOp ::
    "Externals \<Rightarrow> Tuple \<Rightarrow> Tuple \<Rightarrow> DataType list \<Rightarrow> (byte \<Rightarrow> byte \<Rightarrow> byte) \<Rightarrow> failure + Tuple" where
  "Tuple_bitBinOp X t t2 meta bFn =
     mapF (\<lambda>i. case elemAt t2 i of
                  Inl err \<Rightarrow> Inl err
                | Inr r2 \<Rightarrow> (case elemAt meta i of
                              Inl err \<Rightarrow> Inl err
                            | Inr dType \<Rightarrow> Raw_bitBinOp X (t ! i) r2 dType bFn))
          [0..<length t]"

text \<open>
  \<^verbatim>\<open>fnBitAnd\<close> (lines 339 to 355), \<^verbatim>\<open>fnBitOr\<close> (383 to 399) and \<^verbatim>\<open>fnBitXor\<close>
  (401 to 417) have the same body up to the byte function they pass down; \<open>fnBitBin\<close> is that body. \<^verbatim>\<open>make([]Tuple, n)\<close> panics on a negative \<open>n\<close>.
\<close>

definition fnBitBin ::
    "Externals \<Rightarrow> Instruction \<Rightarrow> (byte \<Rightarrow> byte \<Rightarrow> byte) \<Rightarrow> failure + Operand" where
  "fnBitBin X ins bFn =
     (case extractOps X (Input ins) of
        Inl err \<Rightarrow> Inl err
      | Inr (n, op1, op2) \<Rightarrow>
          if n < 0 then Inl Panic
          else (case mapF (\<lambda>i. case elemAt (Data op1) i of
                                  Inl err \<Rightarrow> Inl err
                                | Inr t \<Rightarrow> (case elemAt (Data op2) i of
                                              Inl err \<Rightarrow> Inl err
                                            | Inr t2 \<Rightarrow> Tuple_bitBinOp X t t2 (Meta op1) bFn))
                          [0..<nat n] of
                  Inl err \<Rightarrow> Inl err
                | Inr rows \<Rightarrow> Inr ((Operand_clone op1 True)\<lparr>Data := rows\<rparr>)))"

definition fnBitAnd :: "Externals \<Rightarrow> Context \<Rightarrow> Instruction \<Rightarrow> uint64 \<Rightarrow> failure + Operand" where
  "fnBitAnd X ctx ins len = fnBitBin X ins (\<lambda>b1 b2. b1 AND b2)"

definition fnBitOr :: "Externals \<Rightarrow> Context \<Rightarrow> Instruction \<Rightarrow> uint64 \<Rightarrow> failure + Operand" where
  "fnBitOr X ctx ins len = fnBitBin X ins (\<lambda>b1 b2. b1 OR b2)"

definition fnBitXor :: "Externals \<Rightarrow> Context \<Rightarrow> Instruction \<Rightarrow> uint64 \<Rightarrow> failure + Operand" where
  "fnBitXor X ctx ins len = fnBitBin X ins (\<lambda>b1 b2. b1 XOR b2)"

text \<open>\<^verbatim>\<open>Raw.bitUnOp\<close> (lines 452 to 464), \<^verbatim>\<open>Tuple.bitUnOp\<close> (lines 444 to 450) and
  \<^verbatim>\<open>fnBitNot\<close> (lines 421 to 442).\<close>

definition Raw_bitUnOp :: "Externals \<Rightarrow> Raw \<Rightarrow> DataType \<Rightarrow> (byte \<Rightarrow> byte) \<Rightarrow> failure + Raw" where
  "Raw_bitUnOp X r dType bFn =
     (case toBytes X r dType of
        Inl err \<Rightarrow> Inl err
      | Inr bytes \<Rightarrow> fromBytes X \<lparr>Value = 0, Bytes = [], Spare = []\<rparr> (map bFn bytes) dType)"

definition Tuple_bitUnOp ::
    "Externals \<Rightarrow> Tuple \<Rightarrow> DataType list \<Rightarrow> (byte \<Rightarrow> byte) \<Rightarrow> failure + Tuple" where
  "Tuple_bitUnOp X t meta bFn =
     mapF (\<lambda>i. case elemAt meta i of
                  Inl err \<Rightarrow> Inl err
                | Inr dType \<Rightarrow> Raw_bitUnOp X (t ! i) dType bFn)
          [0..<length t]"

definition fnBitNot :: "Externals \<Rightarrow> Context \<Rightarrow> Instruction \<Rightarrow> uint64 \<Rightarrow> failure + Operand" where
  "fnBitNot X ctx ins len =
     (if length (Input ins) < 1 then Inl ErrorCodeInvalidOperandNum
      else
        let op = Input ins ! 0
        in if \<not> metaAllBitOp op then Inl ErrorCodeInvalidDataType
           else (case mapF (\<lambda>t. Tuple_bitUnOp X t (Meta op) (\<lambda>b. NOT b)) (Data op) of
                   Inl err \<Rightarrow> Inl err
                 | Inr rows \<Rightarrow> Inr ((Operand_clone op True)\<lparr>Data := rows\<rparr>)))"

section \<open>Byte-sequence utilities\<close>

text \<open>\<^verbatim>\<open>fnOctetLength\<close>, lines 466 to 496. Every column of the result has the unsigned
  kind composed with size parameter 32; a value is \<^verbatim>\<open>decimal.New(int64(len(b)), 0)\<close>.\<close>

definition fnOctetLength :: "Externals \<Rightarrow> Context \<Rightarrow> Instruction \<Rightarrow> uint64 \<Rightarrow> failure + Operand" where
  "fnOctetLength X ctx ins len =
     (if length (Input ins) < 1 then Inl ErrorCodeInvalidOperandNum
      else
        let op = Input ins ! 0
        in if \<not> metaAllDynBytes op then Inl ErrorCodeInvalidDataType
           else
             let uint256Type = ComposeDataType DataTypeMajorUint 32
             in Inr \<lparr>IsImmediate = False,
                     Meta = replicate (length (Meta op)) uint256Type,
                     Data = map (map (\<lambda>r. \<lparr>Value = of_nat (length (Bytes r)), Bytes = [], Spare = []\<rparr>))
                                (Data op)\<rparr>)"

text \<open>
  The slice expression \<^verbatim>\<open>b[start:end]\<close> with \<^verbatim>\<open>uint64\<close> indices on a slice with elements
  \<open>b\<close> and spare elements \<open>spare\<close>: Go panics unless \<open>start \<le> end \<le> cap b\<close>, and the
  result shares the backing array, so it has the elements from \<open>start\<close> to \<open>end\<close> and
  keeps everything after \<open>end\<close> as spare elements.
\<close>

definition sliceBytes ::
    "byte list \<Rightarrow> byte list \<Rightarrow> uint64 \<Rightarrow> uint64 \<Rightarrow> failure + (byte list \<times> byte list)" where
  "sliceBytes b spare start end' =
     (let backing = b @ spare
      in if unat start \<le> unat end' \<and> unat end' \<le> length backing
         then Inr (take (unat end' - unat start) (drop (unat start) backing),
                   drop (unat end') backing)
         else Inl Panic)"

text \<open>
  \<^verbatim>\<open>fnSubString\<close>, lines 498 to 545. The assignment \<^verbatim>\<open>err = se.ErrorCodeInvalidDataType\<close> is not followed
  by a return, and \<^verbatim>\<open>starts, err := in.Input[1].toUint64()\<close> assigns the same named result
  \<^verbatim>\<open>err\<close> again: the model binds \<open>err\<close> and, as the source, never reads that binding.
\<close>

definition fnSubString :: "Externals \<Rightarrow> Context \<Rightarrow> Instruction \<Rightarrow> uint64 \<Rightarrow> failure + Operand" where
  "fnSubString X ctx ins len =
     (if length (Input ins) < 3 then Inl ErrorCodeInvalidOperandNum
      else
        let op = Input ins ! 0;
            err = (if \<not> metaAllDynBytes op then Some ErrorCodeInvalidDataType else None);
            dynBytesType = ComposeDataType DataTypeMajorDynamicBytes 0;
            meta = replicate (length (Meta op)) dynBytesType
        in case toUint64 X (Input ins ! 1) of
             Inl err \<Rightarrow> Inl err
           | Inr starts \<Rightarrow>
               if length starts \<noteq> 1 then Inl ErrorCodeIndexOutOfRange
               else (case toUint64 X (Input ins ! 2) of
                       Inl err \<Rightarrow> Inl err
                     | Inr lens \<Rightarrow>
                         if length lens \<noteq> 1 then Inl ErrorCodeIndexOutOfRange
                         else
                           let start = starts ! 0; end' = starts ! 0 + lens ! 0
                           in (case mapF (mapF (\<lambda>r. case sliceBytes (Bytes r) (Spare r) start end' of
                                                       Inl err \<Rightarrow> Inl err
                                                     | Inr (b, sp) \<Rightarrow>
                                                         Inr \<lparr>Value = 0, Bytes = b, Spare = sp\<rparr>))
                                         (Data op) of
                                 Inl err \<Rightarrow> Inl err
                               | Inr rows \<Rightarrow>
                                   Inr \<lparr>IsImmediate = False, Meta = meta, Data = rows\<rparr>)))"

section \<open>Values of a type\<close>

text \<open>
  The values the bitwise operators are specified for. \<open>bitValue X dType x\<close> holds when
  \<open>x\<close> has a canonical encoding \<open>b\<close> at \<open>dType\<close>, decoding \<open>b\<close> gives back \<open>x\<close> (so
  the field of \<^verbatim>\<open>Raw\<close> that the kind does not use is at its zero value), and every byte
  string as long as \<open>b\<close> decodes to a value whose encoding it is again. This is the
  contract the spec asks of the external codec: decoding an encoding gives the value back,
  and encodings of one type have one width.
\<close>

definition bitValue :: "Externals \<Rightarrow> DataType \<Rightarrow> Raw \<Rightarrow> bool" where
  "bitValue X dType x =
     (\<exists>b. toBytes X x dType = Inr b
          \<and> fromBytes X \<lparr>Value = 0, Bytes = [], Spare = []\<rparr> b dType = Inr x
          \<and> (\<forall>bs. length bs = length b \<longrightarrow>
                 (\<exists>r. fromBytes X \<lparr>Value = 0, Bytes = [], Spare = []\<rparr> bs dType = Inr r
                     \<and> toBytes X r dType = Inr bs)))"

section \<open>A reference instance of the external functions\<close>

text \<open>
  Modelled from the spec: the decimal codec, the conversion to \<^verbatim>\<open>uint64\<close> and the two
  helpers \<^verbatim>\<open>findMaxDataLength\<close> and \<^verbatim>\<open>Operand.toUint64\<close> are defined outside functions.go.
  The general theorems below hold for every instance of \<open>Externals\<close>; the instance \<open>refX\<close>
  is used to evaluate the evaluators on concrete inputs.
  \<^item> The codec of an unsigned kind of size parameter \<open>m\<close> is the big-endian encoding on
    \<open>m + 1\<close> bytes (\<^verbatim>\<open>fnRand\<close> decodes a 32-byte hash at size 31); it fails when the value
    is not representable in that width. Other numeric kinds are not given an encoding.
  \<^item> The conversion to \<^verbatim>\<open>uint64\<close> fails when the value cannot be represented as a 64-bit
    unsigned integer.
  \<^item> \<open>ref_findMaxDataLength\<close> is the common row count of the operands that are not flagged
    scalar, 1 when all are, and an index error when two of them differ.
  \<^item> \<open>ref_toUint64\<close> converts the first column of every row.
  \<^item> \<open>ref_Keccak256\<close> is a stand-in of the right type, not a hash function: the last 32
    bytes of its input, reversed.
\<close>

primrec be_encode :: "nat \<Rightarrow> int \<Rightarrow> byte list" where
  "be_encode 0 v = []"
| "be_encode (Suc n) v = be_encode n (v div 256) @ [word_of_int v]"

definition be_decode :: "byte list \<Rightarrow> int" where
  "be_decode bs = foldl (\<lambda>acc b. acc * 256 + uint b) 0 bs"

definition ref_DecimalEncode :: "DataType \<Rightarrow> Decimal \<Rightarrow> failure + byte list" where
  "ref_DecimalEncode dType v =
     (case DecomposeDataType dType of
        (DataTypeMajorUint, m) \<Rightarrow>
          if v = of_int \<lfloor>v\<rfloor> \<and> 0 \<le> v \<and> v < 256 ^ Suc m
          then Inr (be_encode (Suc m) \<lfloor>v\<rfloor>)
          else Inl ErrorExternal
      | _ \<Rightarrow> Inl ErrorExternal)"

definition ref_DecimalDecode :: "DataType \<Rightarrow> byte list \<Rightarrow> Decimal \<times> failure option" where
  "ref_DecimalDecode dType bs =
     (case DecomposeDataType dType of
        (DataTypeMajorUint, m) \<Rightarrow>
          if length bs = Suc m then (of_int (be_decode bs), None) else (0, Some ErrorExternal)
      | _ \<Rightarrow> (0, Some ErrorExternal))"

definition ref_DecimalToUint64 :: "Decimal \<Rightarrow> failure + uint64" where
  "ref_DecimalToUint64 d =
     (if d = of_int \<lfloor>d\<rfloor> \<and> 0 \<le> d \<and> d < 2 ^ 64 then Inr (word_of_int \<lfloor>d\<rfloor>)
      else Inl ErrorExternal)"

definition ref_Keccak256 :: "byte list list \<Rightarrow> byte list" where
  "ref_Keccak256 data = take 32 (rev (concat data) @ replicate 32 0)"

fun ref_findMaxDataLength_loop :: "Operand list \<Rightarrow> int \<Rightarrow> failure + int" where
  "ref_findMaxDataLength_loop [] l = Inr (if l = - 1 then 1 else l)"
| "ref_findMaxDataLength_loop (op # ops) l =
     (if IsImmediate op then ref_findMaxDataLength_loop ops l
      else if l = - 1 then ref_findMaxDataLength_loop ops (int (length (Data op)))
      else if int (length (Data op)) \<noteq> l then Inl ErrorCodeIndexOutOfRange
      else ref_findMaxDataLength_loop ops l)"

definition ref_findMaxDataLength :: "Operand list \<Rightarrow> failure + int" where
  "ref_findMaxDataLength ops = ref_findMaxDataLength_loop ops (- 1)"

definition ref_toUint64 :: "Operand \<Rightarrow> failure + uint64 list" where
  "ref_toUint64 op =
     mapF (\<lambda>t. case elemAt t 0 of Inl err \<Rightarrow> Inl err | Inr r \<Rightarrow> ref_DecimalToUint64 (Value r))
          (Data op)"

definition refX :: Externals where
  "refX = \<lparr>DecimalEncode = ref_DecimalEncode,
           DecimalDecode = ref_DecimalDecode,
           DecimalToUint64 = ref_DecimalToUint64,
           Keccak256 = ref_Keccak256,
           findMaxDataLength = ref_findMaxDataLength,
           toUint64 = ref_toUint64\<rparr>"

text \<open>A context for the closed examples: block 1000, a block-hash lookup that returns the
  block number on 32 bytes, and a randomness counter at 5.\<close>

definition ctx1000 :: Context where
  "ctx1000 = \<lparr>BlockNumber = 1000,
              GetHash = (\<lambda>n. be_encode 32 (uint n)),
              Randomness = [1, 2, 3],
              Origin = replicate 20 7,
              GetNonce = (\<lambda>a. 9),
              RandCallIndex = 5\<rparr>"

text \<open>Operands for the closed examples: a one-column batch of 8-bit unsigned values, a
  scalar 64-bit unsigned value, a single dynamic-length byte string without and with spare
  elements, and the bytes of the ASCII text \<^verbatim>\<open>hello world\<close>.\<close>

definition uint8Operand :: "Decimal list \<Rightarrow> Operand" where
  "uint8Operand vs = \<lparr>IsImmediate = False, Meta = [ComposeDataType DataTypeMajorUint 0],
                       Data = map (\<lambda>v. [\<lparr>Value = v, Bytes = [], Spare = []\<rparr>]) vs\<rparr>"

definition scalarOperand :: "Decimal \<Rightarrow> Operand" where
  "scalarOperand v = \<lparr>IsImmediate = True, Meta = [ComposeDataType DataTypeMajorUint 7],
                       Data = [[\<lparr>Value = v, Bytes = [], Spare = []\<rparr>]]\<rparr>"

definition bytesOperand :: "byte list \<Rightarrow> Operand" where
  "bytesOperand b = \<lparr>IsImmediate = False, Meta = [ComposeDataType DataTypeMajorDynamicBytes 0],
                      Data = [[\<lparr>Value = 0, Bytes = b, Spare = []\<rparr>]]\<rparr>"

definition spareOperand :: "byte list \<Rightarrow> byte list \<Rightarrow> Operand" where
  "spareOperand b sp = \<lparr>IsImmediate = False, Meta = [ComposeDataType DataTypeMajorDynamicBytes 0],
                          Data = [[\<lparr>Value = 0, Bytes = b, Spare = sp\<rparr>]]\<rparr>"

definition helloWorld :: "byte list" where
  "helloWorld = [0x68, 0x65, 0x6c, 0x6c, 0x6f, 0x20, 0x77, 0x6f, 0x72, 0x6c, 0x64]"

section \<open>Properties of the block-hash window\<close>

lemma evalBlockHash_outside:
  "\<not> (cur - 257 < num \<and> num < cur) \<Longrightarrow>
     evalBlockHash X ctx num cur = Inr \<lparr>Value = 0, Bytes = replicate 32 0, Spare = []\<rparr>"
  by (auto simp: evalBlockHash_def Dec257_def Let_def)

lemma evalBlockHash_inside:
  "cur - 257 < num \<Longrightarrow> num < cur \<Longrightarrow>
     evalBlockHash X ctx num cur =
       (case DecimalToUint64 X num of
          Inl err \<Rightarrow> Inl err
        | Inr num64 \<Rightarrow> Inr \<lparr>Value = 0, Bytes = GetHash ctx num64, Spare = []\<rparr>)"
  by (simp add: evalBlockHash_def Dec257_def Let_def split: sum.splits)

lemma ref_DecimalToUint64_numeral:
  "ref_DecimalToUint64 999 = Inr 999" "ref_DecimalToUint64 744 = Inr 744"
  by (simp_all add: ref_DecimalToUint64_def)

lemma assignRows_const: "assignRows (\<lambda>u. (r, u)) n s = (replicate n [r], s)"
  by (induction n) simp_all

text \<open>
  Claim C1, as amended. For a requested number \<open>num\<close> that the conversion to \<^verbatim>\<open>uint64\<close>
  accepts, \<open>evalBlockHash\<close> returns the external lookup's hash of \<open>num\<close> when
  \<open>cur - 257 < num < cur\<close> and 32 zero bytes otherwise; outside the window it returns 32
  zero bytes for every \<open>num\<close>. At current block 1000 the numbers 999 and 744 give the
  lookup's hash, 1000 and 743 give 32 zero bytes. The claim as written, for every \<open>num\<close>,
  fails inside the window when the conversion rejects \<open>num\<close>: the call then returns the
  conversion's error.
\<close>

theorem evalBlockHash_window:
  "(DecimalToUint64 X num = Inr num64 \<longrightarrow>
      evalBlockHash X ctx num cur =
        Inr \<lparr>Value = 0,
             Bytes = (if cur - 257 < num \<and> num < cur then GetHash ctx num64
                      else replicate 32 0), Spare = []\<rparr>)
   \<and> (\<not> (cur - 257 < num \<and> num < cur) \<longrightarrow>
        evalBlockHash X ctx num cur = Inr \<lparr>Value = 0, Bytes = replicate 32 0, Spare = []\<rparr>)
   \<and> evalBlockHash refX ctx 999 1000 = Inr \<lparr>Value = 0, Bytes = GetHash ctx 999, Spare = []\<rparr>
   \<and> evalBlockHash refX ctx 744 1000 = Inr \<lparr>Value = 0, Bytes = GetHash ctx 744, Spare = []\<rparr>
   \<and> evalBlockHash refX ctx 1000 1000 = Inr \<lparr>Value = 0, Bytes = replicate 32 0, Spare = []\<rparr>
   \<and> evalBlockHash refX ctx 743 1000 = Inr \<lparr>Value = 0, Bytes = replicate 32 0, Spare = []\<rparr>"
proof -
  have a: "DecimalToUint64 X num = Inr num64 \<longrightarrow>
      evalBlockHash X ctx num cur =
        Inr \<lparr>Value = 0,
             Bytes = (if cur - 257 < num \<and> num < cur then GetHash ctx num64
                      else replicate 32 0), Spare = []\<rparr>"
    by (cases "cur - 257 < num \<and> num < cur")
       (auto simp: evalBlockHash_inside evalBlockHash_outside)
  have b: "\<not> (cur - 257 < num \<and> num < cur) \<longrightarrow>
        evalBlockHash X ctx num cur = Inr \<lparr>Value = 0, Bytes = replicate 32 0, Spare = []\<rparr>"
    using evalBlockHash_outside by blast
  have c: "evalBlockHash refX ctx 999 1000 = Inr \<lparr>Value = 0, Bytes = GetHash ctx 999, Spare = []\<rparr>"
    by (simp add: evalBlockHash_inside refX_def ref_DecimalToUint64_numeral)
  have d: "evalBlockHash refX ctx 744 1000 = Inr \<lparr>Value = 0, Bytes = GetHash ctx 744, Spare = []\<rparr>"
    by (simp add: evalBlockHash_inside refX_def ref_DecimalToUint64_numeral)
  have e: "evalBlockHash refX ctx 1000 1000 = Inr \<lparr>Value = 0, Bytes = replicate 32 0, Spare = []\<rparr>"
    by (simp add: evalBlockHash_outside)
  have f: "evalBlockHash refX ctx 743 1000 = Inr \<lparr>Value = 0, Bytes = replicate 32 0, Spare = []\<rparr>"
    by (simp add: evalBlockHash_outside)
  from a b c d e f show ?thesis by blast
qed

theorem evalBlockHash_window_witness:
  "DecimalToUint64 refX 990 = Inr 990
   \<and> evalBlockHash refX ctx1000 990 1000 = Inr \<lparr>Value = 0, Bytes = be_encode 32 990, Spare = []\<rparr>
   \<and> \<not> (1000 - 257 < (5 :: Decimal) \<and> (5 :: Decimal) < 1000)
   \<and> evalBlockHash refX ctx1000 5 1000 = Inr \<lparr>Value = 0, Bytes = replicate 32 0, Spare = []\<rparr>"
proof -
  have h: "DecimalToUint64 refX 990 = Inr 990"
    by (simp add: refX_def ref_DecimalToUint64_def)
  have g: "GetHash ctx1000 990 = be_encode 32 990"
    by (simp add: ctx1000_def)
  have n: "\<not> (1000 - 257 < (5 :: Decimal) \<and> (5 :: Decimal) < 1000)" by simp
  from evalBlockHash_window [of refX 990 990 ctx1000 1000] h g
  have "evalBlockHash refX ctx1000 990 1000 = Inr \<lparr>Value = 0, Bytes = be_encode 32 990, Spare = []\<rparr>"
    by simp
  moreover from evalBlockHash_window [of refX 5 0 ctx1000 1000] n
  have "evalBlockHash refX ctx1000 5 1000 = Inr \<lparr>Value = 0, Bytes = replicate 32 0, Spare = []\<rparr>"
    by blast
  ultimately show ?thesis using h n by blast
qed

theorem evalBlockHash_window_counterexample:
  "(10 :: Decimal) - 257 < - 1 \<and> (- 1 :: Decimal) < 10
   \<and> evalBlockHash refX (ctx1000\<lparr>BlockNumber := 10\<rparr>) (- 1) 10 = Inl ErrorExternal"
  by (simp add: evalBlockHash_inside refX_def ref_DecimalToUint64_def)

text \<open>
  Claim C10, as amended. \<open>evalBlockHash\<close> fails exactly when \<open>num\<close> lies in the window
  \<open>cur - 257 < num < cur\<close> and the conversion of \<open>num\<close> to \<^verbatim>\<open>uint64\<close> fails, and then
  with the conversion's error. The claim as written fails outside the window: there the
  conversion is never attempted and an unrepresentable \<open>num\<close> yields 32 zero bytes.
\<close>

theorem evalBlockHash_error_iff:
  "(evalBlockHash X ctx num cur = Inl err) =
     (cur - 257 < num \<and> num < cur \<and> DecimalToUint64 X num = Inl err)"
  by (cases "cur - 257 < num \<and> num < cur")
     (auto simp: evalBlockHash_inside evalBlockHash_outside split: sum.splits)

theorem evalBlockHash_error_iff_witness:
  "(100 :: Decimal) - 257 < - 5 \<and> (- 5 :: Decimal) < 100
   \<and> DecimalToUint64 refX (- 5) = Inl ErrorExternal
   \<and> evalBlockHash refX ctx1000 (- 5) 100 = Inl ErrorExternal"
proof -
  have h: "DecimalToUint64 refX (- 5) = Inl ErrorExternal"
    by (simp add: refX_def ref_DecimalToUint64_def)
  have w: "(100 :: Decimal) - 257 < - 5 \<and> (- 5 :: Decimal) < 100" by simp
  from evalBlockHash_error_iff [of refX ctx1000 "- 5" 100 ErrorExternal] h w
  show ?thesis by simp
qed

theorem evalBlockHash_unrepresentable_counterexample:
  "ref_DecimalToUint64 (2 ^ 64) = Inl ErrorExternal
   \<and> evalBlockHash refX ctx1000 (2 ^ 64) 1000 = Inr \<lparr>Value = 0, Bytes = replicate 32 0, Spare = []\<rparr>
   \<and> fnBlockHash refX ctx1000
        \<lparr>Input = [\<lparr>IsImmediate = True, Meta = [ComposeDataType DataTypeMajorUint 31],
                   Data = [[\<lparr>Value = 2 ^ 64, Bytes = [], Spare = []\<rparr>]]\<rparr>]\<rparr> 2
      = Inr \<lparr>IsImmediate = False, Meta = [ComposeDataType DataTypeMajorFixedBytes 3],
             Data = replicate 2 [\<lparr>Value = 0, Bytes = replicate 32 0, Spare = []\<rparr>]\<rparr>"
proof -
  have a: "ref_DecimalToUint64 (2 ^ 64) = Inl ErrorExternal"
    by (simp add: ref_DecimalToUint64_def)
  have b: "evalBlockHash refX ctx1000 (2 ^ 64) 1000
             = Inr \<lparr>Value = 0, Bytes = replicate 32 0, Spare = []\<rparr>"
    by (simp add: evalBlockHash_outside)
  have c: "fnBlockHash refX ctx1000
        \<lparr>Input = [\<lparr>IsImmediate = True, Meta = [ComposeDataType DataTypeMajorUint 31],
                   Data = [[\<lparr>Value = 2 ^ 64, Bytes = [], Spare = []\<rparr>]]\<rparr>]\<rparr> 2
      = Inr \<lparr>IsImmediate = False, Meta = [ComposeDataType DataTypeMajorFixedBytes 3],
             Data = replicate 2 [\<lparr>Value = 0, Bytes = replicate 32 0, Spare = []\<rparr>]\<rparr>"
    by (simp add: fnBlockHash_def elemAt_def ctx1000_def evalBlockHash_outside
          assignFuncResult_def assignRows_const Raw_clone_def)
  from a b c show ?thesis by blast
qed

section \<open>Properties of the randomness function\<close>

declare uvarint.simps [simp del]
declare PutUvarint_loop.simps [simp del]

lemma unat_drop7: "unat (drop_bit 7 (x::uint64)) = unat x div 128"
  by (subst unat_drop_bit_eq) (simp add: drop_bit_eq_div)

lemma uvarint_length_bound:
  "unat x < 128 ^ n \<Longrightarrow> 0 < n \<Longrightarrow> length (uvarint x) \<le> n"
proof (induction x arbitrary: n rule: uvarint.induct)
  case (1 x)
  show ?case
  proof (cases "x \<ge> 0x80")
    case True
    then have ge: "128 \<le> unat x" by (simp add: word_le_nat_alt)
    obtain m where n: "n = Suc m" using 1(3) by (cases n) auto
    have "m \<noteq> 0" using ge 1(2) n by (cases m) auto
    moreover have "unat (drop_bit 7 x) < 128 ^ m"
      using 1(2) n by (simp add: unat_drop7 less_mult_imp_div_less mult.commute)
    ultimately have "length (uvarint (drop_bit 7 x)) \<le> m"
      using 1(1) [OF True] by simp
    then show ?thesis using True n by (subst uvarint.simps) simp
  next
    case False
    then show ?thesis using 1(3) by (subst uvarint.simps) simp
  qed
qed

lemma uvarint_length_le: "length (uvarint x) \<le> 10"
proof -
  have "unat x < 2 ^ 64" using unsigned_less [of x] by simp
  also have "(2::nat) ^ 64 \<le> 128 ^ 10" by simp
  finally show ?thesis by (intro uvarint_length_bound) simp_all
qed

lemma uvarint_length_pos: "0 < length (uvarint x)"
  by (subst uvarint.simps) simp

lemma uvarint_length_mono:
  "x \<le> y \<Longrightarrow> length (uvarint x) \<le> length (uvarint y)"
proof (induction x arbitrary: y rule: uvarint.induct)
  case (1 x)
  show ?case
  proof (cases "x \<ge> 0x80")
    case True
    then have y: "y \<ge> 0x80" using 1(2) by simp
    have "unat x \<le> unat y" using 1(2) by (simp add: word_le_nat_alt)
    then have "unat (drop_bit 7 x) \<le> unat (drop_bit 7 y)"
      by (simp add: unat_drop7 div_le_mono)
    then have "drop_bit 7 x \<le> drop_bit 7 y" by (simp add: word_le_nat_alt)
    then have "length (uvarint (drop_bit 7 x)) \<le> length (uvarint (drop_bit 7 y))"
      using 1(1) [OF True] by simp
    then show ?thesis using True y
      by (subst uvarint.simps, subst (2) uvarint.simps) simp
  next
    case False
    then have "length (uvarint x) = 1" by (subst uvarint.simps) simp
    then show ?thesis using uvarint_length_pos [of y] by linarith
  qed
qed

lemma PutUvarint_loop_eq:
  "i + length (uvarint x) \<le> length buf \<Longrightarrow>
     PutUvarint_loop buf x i = take i buf @ uvarint x @ drop (i + length (uvarint x)) buf"
proof (induction buf x i rule: PutUvarint_loop.induct)
  case (1 buf x i)
  show ?case
  proof (cases "x \<ge> 0x80")
    case True
    have ux: "uvarint x = (ucast x OR 0x80) # uvarint (drop_bit 7 x)"
      using True by (subst uvarint.simps) simp
    have len: "length (uvarint x) = Suc (length (uvarint (drop_bit 7 x)))"
      by (simp add: ux)
    have i: "i < length buf" using 1(2) len by simp
    have "PutUvarint_loop buf x i
            = PutUvarint_loop (buf[i := ucast x OR 0x80]) (drop_bit 7 x) (i + 1)"
      using True by (subst PutUvarint_loop.simps) simp
    also have "\<dots> = take (i + 1) (buf[i := ucast x OR 0x80]) @ uvarint (drop_bit 7 x)
                       @ drop (i + 1 + length (uvarint (drop_bit 7 x))) (buf[i := ucast x OR 0x80])"
      using 1(1) [OF True] 1(2) len by simp
    also have "take (i + 1) (buf[i := ucast x OR 0x80]) = take i buf @ [ucast x OR 0x80]"
      using i by (simp add: take_Suc_conv_app_nth)
    also have "drop (i + 1 + length (uvarint (drop_bit 7 x))) (buf[i := ucast x OR 0x80])
                 = drop (i + length (uvarint x)) buf"
      using len by simp
    finally show ?thesis by (simp add: ux)
  next
    case False
    have ux: "uvarint x = [ucast x]" using False by (subst uvarint.simps) simp
    have len: "length (uvarint x) = 1" by (simp add: ux)
    have i: "i < length buf" using 1(2) len by simp
    have "PutUvarint_loop buf x i = buf[i := ucast x]"
      using False by (subst PutUvarint_loop.simps) simp
    also have "\<dots> = take i buf @ [ucast x] @ drop (Suc i) buf"
      using i by (simp add: upd_conv_take_nth_drop)
    finally show ?thesis by (simp add: ux)
  qed
qed



lemma lt128_bits: "\<not> (x::uint64) \<ge> 0x80 \<Longrightarrow> 7 \<le> n \<Longrightarrow> \<not> bit x n"
proof -
  assume a: "\<not> x \<ge> 0x80" and n: "7 \<le> n"
  from a have "x < 2 ^ 7" by (simp add: not_le)
  then have "x AND mask 7 = x" by (rule less_mask_eq)
  then have "bit x n = bit (x AND mask 7) n" by simp
  also have "\<dots> = False" using n by (simp add: bit_and_iff bit_mask_iff)
  finally show ?thesis by simp
qed

lemma uvarint_flag_neq: "\<not> (y::uint64) \<ge> 0x80 \<Longrightarrow> (ucast (x::uint64) OR 0x80 :: byte) \<noteq> ucast y"
proof
  assume a: "\<not> y \<ge> 0x80" and e: "(ucast x OR 0x80 :: byte) = ucast y"
  have "bit (ucast x OR 0x80 :: byte) 7" by (simp add: bit_or_iff)
  then have "bit (ucast y :: byte) 7" using e by simp
  then have "bit y 7" by (simp add: bit_ucast_iff)
  then show False using lt128_bits [OF a, of 7] by simp
qed

lemma uvarint_groups_eq:
  assumes h: "(ucast (x::uint64) OR 0x80 :: byte) = ucast (y::uint64) OR 0x80"
      and d: "drop_bit 7 x = drop_bit 7 y"
  shows "x = y"
proof (rule bit_eqI)
  fix n
  show "bit x n = bit y n"
  proof (cases "n < 7")
    case True
    have "bit (ucast x OR 0x80 :: byte) n = bit (ucast y OR 0x80 :: byte) n" using h by simp
    moreover have "(0x80 :: byte) = 2 ^ 7" by simp
    then have "\<not> bit (0x80 :: byte) n" using True
      by (simp only: bit_exp_iff) simp
    ultimately show ?thesis using True by (simp add: bit_or_iff bit_ucast_iff)
  next
    case False
    then obtain m where n: "n = 7 + m" by (metis le_add_diff_inverse not_less)
    have "bit (drop_bit 7 x) m = bit (drop_bit 7 y) m" using d by simp
    then show ?thesis using n by (simp add: bit_drop_bit_eq add.commute)
  qed
qed

lemma uvarint_last_eq:
  assumes x: "\<not> (x::uint64) \<ge> 0x80" and y: "\<not> (y::uint64) \<ge> 0x80"
      and h: "(ucast x :: byte) = ucast y"
  shows "x = y"
proof (rule bit_eqI)
  fix n
  show "bit x n = bit y n"
  proof (cases "n < 7")
    case True
    have "bit (ucast x :: byte) n = bit (ucast y :: byte) n" using h by simp
    then show ?thesis using True by (simp add: bit_ucast_iff)
  next
    case False
    then show ?thesis using lt128_bits [OF x, of n] lt128_bits [OF y, of n] by simp
  qed
qed

lemma uvarint_pad_inj:
  "uvarint x @ replicate a 0 = uvarint y @ replicate b 0 \<Longrightarrow> x = y"
proof (induction x arbitrary: y a b rule: uvarint.induct)
  case (1 x)
  show ?case
  proof (cases "x \<ge> 0x80")
    case xb: True
    have ux: "uvarint x = (ucast x OR 0x80) # uvarint (drop_bit 7 x)"
      using xb by (subst uvarint.simps) simp
    show ?thesis
    proof (cases "y \<ge> 0x80")
      case True
      have uy: "uvarint y = (ucast y OR 0x80) # uvarint (drop_bit 7 y)"
        using True by (subst uvarint.simps) simp
      from 1(2) have h: "(ucast x OR 0x80 :: byte) = ucast y OR 0x80"
        and t: "uvarint (drop_bit 7 x) @ replicate a 0 = uvarint (drop_bit 7 y) @ replicate b 0"
        by (simp_all add: ux uy)
      from 1(1) [OF xb t] have "drop_bit 7 x = drop_bit 7 y" .
      with h show ?thesis by (rule uvarint_groups_eq)
    next
      case False
      have uy: "uvarint y = [ucast y]" using False by (subst uvarint.simps) simp
      from 1(2) have "(ucast x OR 0x80 :: byte) = ucast y" by (simp add: ux uy)
      with uvarint_flag_neq [OF False, of x] show ?thesis by simp
    qed
  next
    case xs: False
    have ux: "uvarint x = [ucast x]" using xs by (subst uvarint.simps) simp
    show ?thesis
    proof (cases "y \<ge> 0x80")
      case True
      have uy: "uvarint y = (ucast y OR 0x80) # uvarint (drop_bit 7 y)"
        using True by (subst uvarint.simps) simp
      from 1(2) have "(ucast y OR 0x80 :: byte) = ucast x" by (simp add: ux uy)
      with uvarint_flag_neq [OF xs, of y] show ?thesis by simp
    next
      case False
      have uy: "uvarint y = [ucast y]" using False by (subst uvarint.simps) simp
      from 1(2) have "(ucast x :: byte) = ucast y" by (simp add: ux uy)
      with xs False show ?thesis by (rule uvarint_last_eq)
    qed
  qed
qed

lemma PutUvarint_fresh:
  "PutUvarint (replicate MaxVarintLen64 0) x
     = uvarint x @ replicate (MaxVarintLen64 - length (uvarint x)) 0"
  using uvarint_length_le [of x]
  by (simp add: PutUvarint_def PutUvarint_loop_eq MaxVarintLen64_def)

lemma PutUvarint_fresh_inj:
  "PutUvarint (replicate MaxVarintLen64 0) x = PutUvarint (replicate MaxVarintLen64 0) y
     \<Longrightarrow> x = y"
  unfolding PutUvarint_fresh by (rule uvarint_pad_inj)

lemma PutUvarint_reuse:
  assumes "j \<le> y"
  shows "PutUvarint (PutUvarint (replicate MaxVarintLen64 0) j) y
           = PutUvarint (replicate MaxVarintLen64 0) y"
proof -
  have l: "length (uvarint j) \<le> length (uvarint y)" using assms by (rule uvarint_length_mono)
  have y10: "length (uvarint y) \<le> 10" by (rule uvarint_length_le)
  show ?thesis
    unfolding PutUvarint_fresh
    using l y10 by (simp add: PutUvarint_def PutUvarint_loop_eq MaxVarintLen64_def)
qed

lemma PutUvarint_zero: "PutUvarint (replicate MaxVarintLen64 0) 0 = replicate MaxVarintLen64 0"
  by (simp add: PutUvarint_def PutUvarint_loop.simps MaxVarintLen64_def list_update_same_conv)


lemma assignRows_length: "length (fst (assignRows fn n s)) = n"
  by (induction n arbitrary: s) (simp_all add: split_beta Let_def)

lemma fnRand_fn_state:
  "snd (fnRand_fn X nb vT (buf, c))
     = (PutUvarint buf (RandCallIndex c), c\<lparr>RandCallIndex := RandCallIndex c + 1\<rparr>)"
  by (simp add: fnRand_fn_def Let_def split_beta)

lemma fnRand_fn_value:
  "fst (fnRand_fn X nb vT (buf, c))
     = \<lparr>Value = fst (DecimalDecode X vT
                        (Keccak256 X [Randomness c, Origin c, nb,
                                      PutUvarint buf (RandCallIndex c)])),
        Bytes = [], Spare = []\<rparr>"
  by (simp add: fnRand_fn_def Let_def split_beta)

lemma assignRows_Suc:
  "assignRows fn (Suc n) s
     = ([fst (fn s)] # fst (assignRows fn n (snd (fn s))), snd (assignRows fn n (snd (fn s))))"
  by (simp add: split_beta Let_def)

lemma fnRand_rows_counter:
  "snd (snd (assignRows (fnRand_fn X nb vT) n (buf, c)))
     = c\<lparr>RandCallIndex := RandCallIndex c + of_nat n\<rparr>"
proof (induction n arbitrary: buf c)
  case 0
  show ?case by simp
next
  case (Suc n)
  show ?case
    by (simp only: assignRows_Suc fnRand_fn_state snd_conv Suc) (simp add: algebra_simps)
qed

lemma fnRand_rows_replay:
  "Randomness c1 = Randomness c2 \<Longrightarrow> Origin c1 = Origin c2 \<Longrightarrow>
   RandCallIndex c1 = RandCallIndex c2 \<Longrightarrow>
     fst (assignRows (fnRand_fn X nb vT) n (buf, c1))
       = fst (assignRows (fnRand_fn X nb vT) n (buf, c2))"
proof (induction n arbitrary: buf c1 c2)
  case 0
  show ?case by simp
next
  case (Suc n)
  have "fst (assignRows (fnRand_fn X nb vT) n
               (PutUvarint buf (RandCallIndex c1), c1\<lparr>RandCallIndex := RandCallIndex c1 + 1\<rparr>))
      = fst (assignRows (fnRand_fn X nb vT) n
               (PutUvarint buf (RandCallIndex c1), c2\<lparr>RandCallIndex := RandCallIndex c2 + 1\<rparr>))"
    using Suc.prems by (intro Suc.IH) simp_all
  then show ?case
    using Suc.prems
    by (simp add: assignRows_Suc fnRand_fn_state fnRand_fn_value del: assignRows.simps)
qed

lemma word_succ_le:
  "unat (k :: uint64) + 1 < 2 ^ 64 \<Longrightarrow> k \<le> k + 1 \<and> unat (k + 1) = unat k + 1"
proof -
  assume a: "unat k + 1 < 2 ^ 64"
  have "unat (k + 1) = (unat k + 1) mod 2 ^ 64" by (simp add: unat_word_ariths)
  with a have u: "unat (k + 1) = unat k + 1" by simp
  then show ?thesis by (simp add: word_le_nat_alt)
qed

lemma fnRand_rows_value:
  assumes "0 < n \<longrightarrow> j \<le> RandCallIndex c"
      and "unat (RandCallIndex c) + n \<le> 2 ^ 64"
  shows "fst (assignRows (fnRand_fn X nb vT) n (PutUvarint (replicate MaxVarintLen64 0) j, c))
     = map (\<lambda>i. [\<lparr>Value = fst (DecimalDecode X vT
                        (Keccak256 X [Randomness c, Origin c, nb,
                           PutUvarint (replicate MaxVarintLen64 0) (RandCallIndex c + of_nat i)])),
                  Bytes = [], Spare = []\<rparr>]) [0..<n]"
  using assms
proof (induction n arbitrary: j c)
  case 0
  show ?case by simp
next
  case (Suc n)
  let ?k = "RandCallIndex c"
  let ?c' = "c\<lparr>RandCallIndex := ?k + 1\<rparr>"
  from Suc.prems have jk: "j \<le> ?k" by simp
  have step: "0 < n \<longrightarrow> ?k \<le> RandCallIndex ?c'"
    using Suc.prems(2) word_succ_le [of ?k] by auto
  have bound: "unat (RandCallIndex ?c') + n \<le> 2 ^ 64"
  proof (cases "unat ?k + 1 < 2 ^ 64")
    case True
    then show ?thesis using Suc.prems(2) word_succ_le [of ?k] by simp
  next
    case False
    then have "n = 0" using Suc.prems(2) by simp
    moreover have "unat (RandCallIndex ?c') < 2 ^ 64"
      using unsigned_less [of "RandCallIndex ?c'"] by simp
    ultimately show ?thesis by simp
  qed
  have IH: "fst (assignRows (fnRand_fn X nb vT) n (PutUvarint (replicate MaxVarintLen64 0) ?k, ?c'))
     = map (\<lambda>i. [\<lparr>Value = fst (DecimalDecode X vT
                        (Keccak256 X [Randomness c, Origin c, nb,
                           PutUvarint (replicate MaxVarintLen64 0) (?k + 1 + of_nat i)])),
                  Bytes = [], Spare = []\<rparr>]) [0..<n]"
    using Suc.IH [OF step bound] by simp
  have shift: "[0..<Suc n] = 0 # map Suc [0..<n]"
    by (simp add: upt_conv_Cons map_Suc_upt del: upt_Suc)
  show ?case
    by (simp only: assignRows_Suc fnRand_fn_state fnRand_fn_value fst_conv snd_conv
          PutUvarint_reuse [OF jk] IH shift)
       (simp add: o_def algebra_simps)
qed


lemma fnRand_unfold:
  "fnRand X ctx ins len =
     (Inr \<lparr>IsImmediate = False, Meta = [ComposeDataType DataTypeMajorUint 31],
           Data = fst (assignRows
                    (fnRand_fn X (PutUvarint (replicate MaxVarintLen64 0) (GetNonce ctx (Origin ctx)))
                       (ComposeDataType DataTypeMajorUint 31))
                    (unat len) (replicate MaxVarintLen64 0, ctx))\<rparr>,
      snd (snd (assignRows
                    (fnRand_fn X (PutUvarint (replicate MaxVarintLen64 0) (GetNonce ctx (Origin ctx)))
                       (ComposeDataType DataTypeMajorUint 31))
                    (unat len) (replicate MaxVarintLen64 0, ctx))))"
  by (simp add: fnRand_def assignFuncResult_def Let_def split_beta)

lemma fnRand_indices_distinct:
  "distinct (map (\<lambda>i. PutUvarint (replicate MaxVarintLen64 0) ((k :: uint64) + of_nat i))
               [0..<unat (len :: uint64)])"
proof -
  have "inj_on (\<lambda>i. PutUvarint (replicate MaxVarintLen64 0) (k + of_nat i)) {0..<unat len}"
  proof (rule inj_onI)
    fix i i'
    assume i: "i \<in> {0..<unat len}" and i': "i' \<in> {0..<unat len}"
      and e: "PutUvarint (replicate MaxVarintLen64 0) (k + of_nat i)
                = PutUvarint (replicate MaxVarintLen64 0) (k + of_nat i')"
    have b: "unat len < 2 ^ 64" using unsigned_less [of len] by simp
    from e have "k + of_nat i = k + of_nat i'" by (rule PutUvarint_fresh_inj)
    then have "(of_nat i :: uint64) = of_nat i'" by simp
    then have "unat (of_nat i :: uint64) = unat (of_nat i' :: uint64)" by simp
    moreover have "unat (of_nat i :: uint64) = i" using i b by (simp add: unat_of_nat)
    moreover have "unat (of_nat i' :: uint64) = i'" using i' b by (simp add: unat_of_nat)
    ultimately show "i = i'" by simp
  qed
  then show ?thesis by (simp add: distinct_map)
qed

text \<open>
  Claim C2. A call of \<open>fnRand\<close> with batch length \<open>len\<close> at counter \<open>k\<close> leaves the
  counter at \<open>k + len\<close> and changes nothing else in the context. It returns one column
  of the unsigned kind of size 31 with \<open>len\<close> rows; as long as the counter does not pass
  \<open>2 ^ 64\<close> within the call, row \<open>i\<close> is the decoding, at that kind, of the Keccak-256 hash
  of the seed, the origin address, the varint-encoded nonce of the origin and the
  varint-encoded index \<open>k + i\<close>, each index on a zero-padded buffer of ten bytes. The
  encoded indices of the rows are pairwise distinct. A second context with the same seed,
  origin, nonce and starting counter yields the same rows.
\<close>

theorem fnRand_counter_and_values:
  "snd (fnRand X ctx ins len) = ctx\<lparr>RandCallIndex := RandCallIndex ctx + len\<rparr>
   \<and> (\<exists>op. fst (fnRand X ctx ins len) = Inr op
         \<and> Meta op = [ComposeDataType DataTypeMajorUint 31]
         \<and> length (Data op) = unat len
         \<and> (unat (RandCallIndex ctx) + unat len \<le> 2 ^ 64 \<longrightarrow>
              Data op =
                map (\<lambda>i. [\<lparr>Value = fst (DecimalDecode X (ComposeDataType DataTypeMajorUint 31)
                              (Keccak256 X
                                 [Randomness ctx, Origin ctx,
                                  PutUvarint (replicate MaxVarintLen64 0) (GetNonce ctx (Origin ctx)),
                                  PutUvarint (replicate MaxVarintLen64 0)
                                    (RandCallIndex ctx + of_nat i)])),
                            Bytes = [], Spare = []\<rparr>])
                    [0..<unat len]))
   \<and> distinct (map (\<lambda>i. PutUvarint (replicate MaxVarintLen64 0) (RandCallIndex ctx + of_nat i))
                 [0..<unat len])
   \<and> (Randomness ctx2 = Randomness ctx \<and> Origin ctx2 = Origin ctx
        \<and> GetNonce ctx2 (Origin ctx2) = GetNonce ctx (Origin ctx)
        \<and> RandCallIndex ctx2 = RandCallIndex ctx
       \<longrightarrow> fst (fnRand X ctx2 ins2 len) = fst (fnRand X ctx ins len))"
proof (intro conjI)
  show "snd (fnRand X ctx ins len) = ctx\<lparr>RandCallIndex := RandCallIndex ctx + len\<rparr>"
    by (simp add: fnRand_unfold fnRand_rows_counter)
next
  let ?nb = "PutUvarint (replicate MaxVarintLen64 0) (GetNonce ctx (Origin ctx))"
  let ?vT = "ComposeDataType DataTypeMajorUint 31"
  let ?rows = "fst (assignRows (fnRand_fn X ?nb ?vT) (unat len) (replicate MaxVarintLen64 0, ctx))"
  let ?op = "\<lparr>IsImmediate = False, Meta = [?vT], Data = ?rows\<rparr>"
  have 1: "fst (fnRand X ctx ins len) = Inr ?op" by (simp add: fnRand_unfold)
  have 2: "length (Data ?op) = unat len" by (simp add: assignRows_length)
  have 3: "unat (RandCallIndex ctx) + unat len \<le> 2 ^ 64 \<longrightarrow>
           Data ?op = map (\<lambda>i. [\<lparr>Value = fst (DecimalDecode X ?vT
                              (Keccak256 X
                                 [Randomness ctx, Origin ctx, ?nb,
                                  PutUvarint (replicate MaxVarintLen64 0)
                                    (RandCallIndex ctx + of_nat i)])),
                            Bytes = [], Spare = []\<rparr>])
                    [0..<unat len]"
  proof
    assume b: "unat (RandCallIndex ctx) + unat len \<le> 2 ^ 64"
    have z: "0 < unat len \<longrightarrow> (0 :: uint64) \<le> RandCallIndex ctx" by simp
    from fnRand_rows_value [of "unat len" 0 ctx X ?nb ?vT, OF z b]
    show "Data ?op = map (\<lambda>i. [\<lparr>Value = fst (DecimalDecode X ?vT
                              (Keccak256 X
                                 [Randomness ctx, Origin ctx, ?nb,
                                  PutUvarint (replicate MaxVarintLen64 0)
                                    (RandCallIndex ctx + of_nat i)])),
                            Bytes = [], Spare = []\<rparr>])
                    [0..<unat len]"
      by (simp add: PutUvarint_zero)
  qed
  from 1 2 3 show "\<exists>op. fst (fnRand X ctx ins len) = Inr op
         \<and> Meta op = [?vT]
         \<and> length (Data op) = unat len
         \<and> (unat (RandCallIndex ctx) + unat len \<le> 2 ^ 64 \<longrightarrow>
              Data op =
                map (\<lambda>i. [\<lparr>Value = fst (DecimalDecode X ?vT
                              (Keccak256 X
                                 [Randomness ctx, Origin ctx, ?nb,
                                  PutUvarint (replicate MaxVarintLen64 0)
                                    (RandCallIndex ctx + of_nat i)])),
                            Bytes = [], Spare = []\<rparr>])
                    [0..<unat len])"
    by (intro exI [of _ ?op]) simp
next
  show "distinct (map (\<lambda>i. PutUvarint (replicate MaxVarintLen64 0) (RandCallIndex ctx + of_nat i))
                 [0..<unat len])"
    by (rule fnRand_indices_distinct)
next
  show "Randomness ctx2 = Randomness ctx \<and> Origin ctx2 = Origin ctx
        \<and> GetNonce ctx2 (Origin ctx2) = GetNonce ctx (Origin ctx)
        \<and> RandCallIndex ctx2 = RandCallIndex ctx
       \<longrightarrow> fst (fnRand X ctx2 ins2 len) = fst (fnRand X ctx ins len)"
  proof
    assume a: "Randomness ctx2 = Randomness ctx \<and> Origin ctx2 = Origin ctx
        \<and> GetNonce ctx2 (Origin ctx2) = GetNonce ctx (Origin ctx)
        \<and> RandCallIndex ctx2 = RandCallIndex ctx"
    then have "fst (assignRows
                    (fnRand_fn X (PutUvarint (replicate MaxVarintLen64 0) (GetNonce ctx (Origin ctx)))
                       (ComposeDataType DataTypeMajorUint 31))
                    (unat len) (replicate MaxVarintLen64 0, ctx2))
             = fst (assignRows
                    (fnRand_fn X (PutUvarint (replicate MaxVarintLen64 0) (GetNonce ctx (Origin ctx)))
                       (ComposeDataType DataTypeMajorUint 31))
                    (unat len) (replicate MaxVarintLen64 0, ctx))"
      by (intro fnRand_rows_replay) simp_all
    moreover from a have "PutUvarint (replicate MaxVarintLen64 0) (GetNonce ctx2 (Origin ctx2))
             = PutUvarint (replicate MaxVarintLen64 0) (GetNonce ctx (Origin ctx))"
      by (elim conjE) (rule arg_cong)
    ultimately show "fst (fnRand X ctx2 ins2 len) = fst (fnRand X ctx ins len)"
      by (simp only: fnRand_unfold fst_conv)
  qed
qed

theorem fnRand_counter_and_values_witness:
  "unat (RandCallIndex ctx1000) + unat (3 :: uint64) \<le> 2 ^ 64
   \<and> snd (fnRand refX ctx1000 \<lparr>Input = []\<rparr> 3) = ctx1000\<lparr>RandCallIndex := 8\<rparr>
   \<and> (\<exists>op. fst (fnRand refX ctx1000 \<lparr>Input = []\<rparr> 3) = Inr op
         \<and> Data op =
              map (\<lambda>i. [\<lparr>Value = fst (ref_DecimalDecode (ComposeDataType DataTypeMajorUint 31)
                            (ref_Keccak256
                               [[1, 2, 3], replicate 20 7,
                                PutUvarint (replicate MaxVarintLen64 0) 9,
                                PutUvarint (replicate MaxVarintLen64 0) (5 + of_nat i)])),
                          Bytes = [], Spare = []\<rparr>])
                  [0..<3])
   \<and> fst (fnRand refX (ctx1000\<lparr>BlockNumber := 7\<rparr>) \<lparr>Input = []\<rparr> 3)
       = fst (fnRand refX ctx1000 \<lparr>Input = []\<rparr> 3)"
proof -
  have h: "unat (RandCallIndex ctx1000) + unat (3 :: uint64) \<le> 2 ^ 64"
    by (simp add: ctx1000_def)
  have r: "Randomness (ctx1000\<lparr>BlockNumber := 7\<rparr>) = Randomness ctx1000
        \<and> Origin (ctx1000\<lparr>BlockNumber := 7\<rparr>) = Origin ctx1000
        \<and> GetNonce (ctx1000\<lparr>BlockNumber := 7\<rparr>) (Origin (ctx1000\<lparr>BlockNumber := 7\<rparr>))
            = GetNonce ctx1000 (Origin ctx1000)
        \<and> RandCallIndex (ctx1000\<lparr>BlockNumber := 7\<rparr>) = RandCallIndex ctx1000"
    by simp
  note t = fnRand_counter_and_values
             [of refX ctx1000 "\<lparr>Input = []\<rparr>" 3 "ctx1000\<lparr>BlockNumber := 7\<rparr>" "\<lparr>Input = []\<rparr>"]
  from t have a: "snd (fnRand refX ctx1000 \<lparr>Input = []\<rparr> 3) = ctx1000\<lparr>RandCallIndex := 8\<rparr>"
    by (simp add: ctx1000_def)
  from t h obtain op where op: "fst (fnRand refX ctx1000 \<lparr>Input = []\<rparr> 3) = Inr op"
    and d: "Data op =
                map (\<lambda>i. [\<lparr>Value = fst (DecimalDecode refX (ComposeDataType DataTypeMajorUint 31)
                              (Keccak256 refX
                                 [Randomness ctx1000, Origin ctx1000,
                                  PutUvarint (replicate MaxVarintLen64 0)
                                    (GetNonce ctx1000 (Origin ctx1000)),
                                  PutUvarint (replicate MaxVarintLen64 0)
                                    (RandCallIndex ctx1000 + of_nat i)])),
                            Bytes = [], Spare = []\<rparr>])
                    [0..<unat (3 :: uint64)]"
    by blast
  from d have d': "Data op =
              map (\<lambda>i. [\<lparr>Value = fst (ref_DecimalDecode (ComposeDataType DataTypeMajorUint 31)
                            (ref_Keccak256
                               [[1, 2, 3], replicate 20 7,
                                PutUvarint (replicate MaxVarintLen64 0) 9,
                                PutUvarint (replicate MaxVarintLen64 0) (5 + of_nat i)])),
                          Bytes = [], Spare = []\<rparr>])
                  [0..<3]"
    by (simp add: refX_def ctx1000_def)
  from t r have c: "fst (fnRand refX (ctx1000\<lparr>BlockNumber := 7\<rparr>) \<lparr>Input = []\<rparr> 3)
       = fst (fnRand refX ctx1000 \<lparr>Input = []\<rparr> 3)"
    by blast
  from h a op d' c show ?thesis by blast
qed

section \<open>Loops over slices\<close>

lemma mapF_all_Inr:
  "(\<And>x. x \<in> set xs \<Longrightarrow> f x = Inr (g x)) \<Longrightarrow> mapF f xs = Inr (map g xs)"
  by (induction xs) simp_all

lemma mapF_Inr_iff:
  "mapF f xs = Inr ys \<longleftrightarrow>
     length ys = length xs \<and> (\<forall>i < length xs. f (xs ! i) = Inr (ys ! i))"
proof (induction xs arbitrary: ys)
  case Nil
  show ?case by auto
next
  case (Cons x xs)
  show ?case
  proof (cases ys)
    case Nil
    then show ?thesis by (auto split: sum.splits)
  next
    case (Cons y ys')
    have "(\<forall>i < Suc (length xs). f ((x # xs) ! i) = Inr ((y # ys') ! i))
            \<longleftrightarrow> f x = Inr y \<and> (\<forall>i < length xs. f (xs ! i) = Inr (ys' ! i))"
      by (auto simp: less_Suc_eq_0_disj)
    then show ?thesis using Cons Cons.IH [of ys'] by (auto split: sum.splits)
  qed
qed

lemma mapF_Inl_elem:
  "mapF f xs = Inl e \<Longrightarrow> \<exists>x \<in> set xs. f x = Inl e"
  by (induction xs) (auto split: sum.splits)

lemma mapF_some_Panic:
  "x \<in> set xs \<Longrightarrow> f x = Inl Panic \<Longrightarrow> (\<And>y e. y \<in> set xs \<Longrightarrow> f y = Inl e \<Longrightarrow> e = Panic)
     \<Longrightarrow> mapF f xs = Inl Panic"
proof (induction xs)
  case Nil
  then show ?case by simp
next
  case (Cons a xs)
  show ?case
  proof (cases "f a")
    case (Inl e)
    then have "e = Panic" using Cons.prems(3) [of a e] by simp
    then show ?thesis using Inl by simp
  next
    case (Inr b)
    then have "x \<in> set xs" using Cons.prems(1,2) by auto
    then have "mapF f xs = Inl Panic" using Cons.prems(2,3) by (intro Cons.IH) auto
    then show ?thesis using Inr by simp
  qed
qed

section \<open>Properties of the byte-sequence utilities\<close>

lemma sliceBytes_sum:
  assumes "length b + length spare < 2 ^ 63"
  shows "sliceBytes b spare start (start + len) =
           (if unat start + unat len \<le> length b + length spare
            then Inr (take (unat len) (drop (unat start) (b @ spare)),
                      drop (unat start + unat len) (b @ spare))
            else Inl Panic)"
proof (cases "unat start + unat len < 2 ^ 64")
  case True
  then have "unat (start + len) = unat start + unat len"
    by (simp add: unat_word_ariths)
  then show ?thesis by (simp add: sliceBytes_def)
next
  case False
  have s: "unat start < 2 ^ 64" and l: "unat len < 2 ^ 64"
    using unsigned_less [of start] unsigned_less [of len] by simp_all
  have "unat (start + len) = (unat start + unat len) mod 2 ^ 64"
    by (simp add: unat_word_ariths)
  also have "\<dots> = unat start + unat len - 2 ^ 64"
    using False s l by (simp add: mod_if)
  finally have "unat (start + len) < unat start" using False l by simp
  moreover have "\<not> unat start + unat len \<le> length b + length spare" using False assms by simp
  ultimately show ?thesis by (simp add: sliceBytes_def)
qed

lemma fnSubString_scalar:
  assumes "3 \<le> length (Input ins)"
      and "toUint64 X (Input ins ! 1) = Inr [start]"
      and "toUint64 X (Input ins ! 2) = Inr [len']"
  shows "fnSubString X ctx ins n =
           (case mapF (mapF (\<lambda>r. case sliceBytes (Bytes r) (Spare r) start (start + len') of
                                     Inl err \<Rightarrow> Inl err
                                   | Inr (b, sp) \<Rightarrow> Inr \<lparr>Value = 0, Bytes = b, Spare = sp\<rparr>))
                      (Data (Input ins ! 0)) of
              Inl err \<Rightarrow> Inl err
            | Inr rows \<Rightarrow>
                Inr \<lparr>IsImmediate = False,
                     Meta = replicate (length (Meta (Input ins ! 0)))
                              (ComposeDataType DataTypeMajorDynamicBytes 0),
                     Data = rows\<rparr>)"
  using assms by (simp add: fnSubString_def Let_def)

lemma fnSubString_in_capacity:
  assumes "3 \<le> length (Input ins)"
      and "toUint64 X (Input ins ! 1) = Inr [start]"
      and "toUint64 X (Input ins ! 2) = Inr [len']"
      and small: "\<forall>t \<in> set (Data (Input ins ! 0)). \<forall>r \<in> set t.
                    length (Bytes r) + length (Spare r) < 2 ^ 63"
      and ok: "\<forall>t \<in> set (Data (Input ins ! 0)). \<forall>r \<in> set t.
                 unat start + unat len' \<le> length (Bytes r) + length (Spare r)"
  shows "fnSubString X ctx ins n =
           Inr \<lparr>IsImmediate = False,
                Meta = replicate (length (Meta (Input ins ! 0)))
                         (ComposeDataType DataTypeMajorDynamicBytes 0),
                Data = map (map (\<lambda>r. \<lparr>Value = 0,
                                       Bytes = take (unat len')
                                                 (drop (unat start) (Bytes r @ Spare r)),
                                       Spare = drop (unat start + unat len')
                                                 (Bytes r @ Spare r)\<rparr>))
                           (Data (Input ins ! 0))\<rparr>"
proof -
  let ?cell = "\<lambda>r. case sliceBytes (Bytes r) (Spare r) start (start + len') of
                      Inl err \<Rightarrow> Inl err
                    | Inr (b, sp) \<Rightarrow> Inr \<lparr>Value = 0, Bytes = b, Spare = sp\<rparr>"
  let ?out = "\<lambda>r. \<lparr>Value = 0,
                   Bytes = take (unat len') (drop (unat start) (Bytes r @ Spare r)),
                   Spare = drop (unat start + unat len') (Bytes r @ Spare r)\<rparr>"
  have row: "mapF ?cell t = Inr (map ?out t)" if "t \<in> set (Data (Input ins ! 0))" for t
  proof (rule mapF_all_Inr)
    fix r assume "r \<in> set t"
    with that small ok show "?cell r = Inr (?out r)"
      by (simp add: sliceBytes_sum)
  qed
  have "mapF (mapF ?cell) (Data (Input ins ! 0)) = Inr (map (map ?out) (Data (Input ins ! 0)))"
    by (rule mapF_all_Inr) (rule row)
  then show ?thesis
    by (simp add: fnSubString_scalar [OF assms(1-3)])
qed

lemma fnSubString_in_range:
  assumes "3 \<le> length (Input ins)"
      and "toUint64 X (Input ins ! 1) = Inr [start]"
      and "toUint64 X (Input ins ! 2) = Inr [len']"
      and small: "\<forall>t \<in> set (Data (Input ins ! 0)). \<forall>r \<in> set t.
                    length (Bytes r) + length (Spare r) < 2 ^ 63"
      and ok: "\<forall>t \<in> set (Data (Input ins ! 0)). \<forall>r \<in> set t.
                 unat start + unat len' \<le> length (Bytes r)"
  shows "fnSubString X ctx ins n =
           Inr \<lparr>IsImmediate = False,
                Meta = replicate (length (Meta (Input ins ! 0)))
                         (ComposeDataType DataTypeMajorDynamicBytes 0),
                Data = map (map (\<lambda>r. \<lparr>Value = 0,
                                       Bytes = take (unat len') (drop (unat start) (Bytes r)),
                                       Spare = drop (unat start + unat len')
                                                 (Bytes r @ Spare r)\<rparr>))
                           (Data (Input ins ! 0))\<rparr>"
proof -
  have cap: "\<forall>t \<in> set (Data (Input ins ! 0)). \<forall>r \<in> set t.
                 unat start + unat len' \<le> length (Bytes r) + length (Spare r)"
    using ok by fastforce
  have "map (map (\<lambda>r. \<lparr>Value = 0,
                        Bytes = take (unat len') (drop (unat start) (Bytes r @ Spare r)),
                        Spare = drop (unat start + unat len') (Bytes r @ Spare r)\<rparr>))
            (Data (Input ins ! 0))
      = map (map (\<lambda>r. \<lparr>Value = 0,
                        Bytes = take (unat len') (drop (unat start) (Bytes r)),
                        Spare = drop (unat start + unat len') (Bytes r @ Spare r)\<rparr>))
            (Data (Input ins ! 0))"
  proof (intro map_cong refl)
    fix t r assume "t \<in> set (Data (Input ins ! 0))" "r \<in> set t"
    with ok have "unat start + unat len' \<le> length (Bytes r)" by blast
    then have "unat len' \<le> length (Bytes r) - unat start" by linarith
    then show "\<lparr>Value = 0,
                Bytes = take (unat len') (drop (unat start) (Bytes r @ Spare r)),
                Spare = drop (unat start + unat len') (Bytes r @ Spare r)\<rparr>
             = \<lparr>Value = 0,
                Bytes = take (unat len') (drop (unat start) (Bytes r)),
                Spare = drop (unat start + unat len') (Bytes r @ Spare r)\<rparr>"
      by simp
  qed
  with fnSubString_in_capacity [OF assms(1-4) cap] show ?thesis by simp
qed

lemma fnSubString_out_of_range:
  assumes "3 \<le> length (Input ins)"
      and "toUint64 X (Input ins ! 1) = Inr [start]"
      and "toUint64 X (Input ins ! 2) = Inr [len']"
      and small: "\<forall>t \<in> set (Data (Input ins ! 0)). \<forall>r \<in> set t.
                    length (Bytes r) + length (Spare r) < 2 ^ 63"
      and bad: "\<exists>t \<in> set (Data (Input ins ! 0)). \<exists>r \<in> set t.
                 length (Bytes r) + length (Spare r) < unat start + unat len'"
  shows "fnSubString X ctx ins n = Inl Panic"
proof -
  let ?cell = "\<lambda>r. case sliceBytes (Bytes r) (Spare r) start (start + len') of
                      Inl err \<Rightarrow> Inl err
                    | Inr (b, sp) \<Rightarrow> Inr \<lparr>Value = 0, Bytes = b, Spare = sp\<rparr>"
  have cellP: "e = Panic" if "?cell r = Inl e" for r e
    using that by (auto simp: sliceBytes_def Let_def split: if_splits)
  have rowP: "e = Panic" if "mapF ?cell t = Inl e" for t e
    using mapF_Inl_elem [OF that] cellP by blast
  from bad obtain t r where t: "t \<in> set (Data (Input ins ! 0))" and r: "r \<in> set t"
    and short: "length (Bytes r) + length (Spare r) < unat start + unat len'" by blast
  have "length (Bytes r) + length (Spare r) < 2 ^ 63" using small t r by blast
  then have "?cell r = Inl Panic" using short by (simp add: sliceBytes_sum)
  with r have "mapF ?cell t = Inl Panic"
    by (rule mapF_some_Panic) (rule cellP)
  with t have "mapF (mapF ?cell) (Data (Input ins ! 0)) = Inl Panic"
    by (rule mapF_some_Panic) (rule rowP)
  then show ?thesis
    by (simp add: fnSubString_scalar [OF assms(1-3)])
qed

lemma ref_toUint64_scalar:
  "0 \<le> n \<Longrightarrow> n < 2 ^ 64 \<Longrightarrow> toUint64 refX (scalarOperand (of_int n)) = Inr [word_of_int n]"
  by (simp add: refX_def ref_toUint64_def scalarOperand_def elemAt_def ref_DecimalToUint64_def)

lemma ref_toUint64_negative: "toUint64 refX (scalarOperand (- 1)) = Inl ErrorExternal"
  by (simp add: refX_def ref_toUint64_def scalarOperand_def elemAt_def ref_DecimalToUint64_def)

lemma ref_toUint64_6: "toUint64 refX (scalarOperand 6) = Inr [6]"
  using ref_toUint64_scalar [of 6] by simp

lemma ref_toUint64_5: "toUint64 refX (scalarOperand 5) = Inr [5]"
  using ref_toUint64_scalar [of 5] by simp

lemma ref_toUint64_0: "toUint64 refX (scalarOperand 0) = Inr [0]"
  using ref_toUint64_scalar [of 0] by simp

lemma ref_toUint64_3: "toUint64 refX (scalarOperand 3) = Inr [3]"
  using ref_toUint64_scalar [of 3] by simp

lemma fnSubString_hello_world:
  "fnSubString refX ctx \<lparr>Input = [bytesOperand helloWorld, scalarOperand 6, scalarOperand 5]\<rparr> 1
     = Inr (bytesOperand [0x77, 0x6f, 0x72, 0x6c, 0x64])"
  by (simp add: fnSubString_def ref_toUint64_6 ref_toUint64_5 Let_def)
     (simp add: bytesOperand_def helloWorld_def sliceBytes_def)

lemma fnSubString_hello_wor:
  "fnSubString refX ctx \<lparr>Input = [bytesOperand helloWorld, scalarOperand 6, scalarOperand 3]\<rparr> 1
     = Inr (spareOperand [0x77, 0x6f, 0x72] [0x6c, 0x64])"
  by (simp add: fnSubString_def ref_toUint64_6 ref_toUint64_3 Let_def)
     (simp add: bytesOperand_def spareOperand_def helloWorld_def sliceBytes_def)

lemma fnSubString_beyond_length:
  "fnSubString refX ctx
     \<lparr>Input = [spareOperand [0x77, 0x6f, 0x72] [0x6c, 0x64], scalarOperand 0, scalarOperand 5]\<rparr> 1
     = Inr (bytesOperand [0x77, 0x6f, 0x72, 0x6c, 0x64])"
  by (simp add: fnSubString_def ref_toUint64_0 ref_toUint64_5 Let_def)
     (simp add: bytesOperand_def spareOperand_def sliceBytes_def)

lemma metaDynBytes_iff:
  "metaDynBytes dType \<longleftrightarrow>
     fst (DecomposeDataType dType)
       \<in> {DataTypeMajorFixedBytes, DataTypeMajorAddress, DataTypeMajorDynamicBytes}"
  by (cases dType; cases "fst (DecomposeDataType dType)")
     (auto simp: metaDynBytes_def)

lemma be_encode_length: "length (be_encode k v) = k"
  by (induction k arbitrary: v) simp_all

lemma ref_uint32_wide:
  assumes "n < 2 ^ 63"
  shows "\<exists>bs. ref_DecimalEncode (ComposeDataType DataTypeMajorUint 32) (of_nat n) = Inr bs"
proof -
  have "(of_nat n :: rat) < of_nat (2 ^ 63)" using assms by (simp only: of_nat_less_iff)
  also have "(of_nat (2 ^ 63) :: rat) \<le> 256 ^ Suc 32" by simp
  finally have "(of_nat n :: rat) < 256 ^ Suc 32" .
  then show ?thesis
    by (simp add: ref_DecimalEncode_def del: power_Suc)
qed

text \<open>
  Claim C3 fails on the code. For a source operand with a column that is not
  byte-sequence-valued, \<open>fnSubString\<close> records the invalid-data-type error without
  returning, and the next assignment to \<^verbatim>\<open>err\<close> replaces it. With scalar start 0 and
  length 0 the call on an 8-bit unsigned column returns a result and no error; with length 5
  it panics on the slice bounds. The sibling \<open>fnOctetLength\<close> returns the error at the
  same guard.
\<close>

theorem fnSubString_type_guard_lost:
  "\<not> metaAllDynBytes (uint8Operand [5])
   \<and> fnSubString refX ctx1000
        \<lparr>Input = [uint8Operand [5], scalarOperand 0, scalarOperand 0]\<rparr> 1
       = Inr \<lparr>IsImmediate = False, Meta = [ComposeDataType DataTypeMajorDynamicBytes 0],
              Data = [[\<lparr>Value = 0, Bytes = [], Spare = []\<rparr>]]\<rparr>
   \<and> fnSubString refX ctx1000
        \<lparr>Input = [uint8Operand [5], scalarOperand 0, scalarOperand 5]\<rparr> 1
       = Inl Panic
   \<and> fnOctetLength refX ctx1000 \<lparr>Input = [uint8Operand [5]]\<rparr> 1 = Inl ErrorCodeInvalidDataType"
proof -
  have g: "\<not> metaAllDynBytes (uint8Operand [5])"
    by (simp add: metaAllDynBytes_def metaAll_def metaDynBytes_def uint8Operand_def)
  have 1: "fnSubString refX ctx1000
        \<lparr>Input = [uint8Operand [5], scalarOperand 0, scalarOperand 0]\<rparr> 1
       = Inr \<lparr>IsImmediate = False, Meta = [ComposeDataType DataTypeMajorDynamicBytes 0],
              Data = [[\<lparr>Value = 0, Bytes = [], Spare = []\<rparr>]]\<rparr>"
    by (simp add: fnSubString_def ref_toUint64_0 Let_def)
       (simp add: uint8Operand_def sliceBytes_def)
  have 2: "fnSubString refX ctx1000
        \<lparr>Input = [uint8Operand [5], scalarOperand 0, scalarOperand 5]\<rparr> 1
       = Inl Panic"
    by (simp add: fnSubString_def ref_toUint64_0 ref_toUint64_5 Let_def)
       (simp add: uint8Operand_def sliceBytes_def)
  have 3: "fnOctetLength refX ctx1000 \<lparr>Input = [uint8Operand [5]]\<rparr> 1
             = Inl ErrorCodeInvalidDataType"
    using g by (simp add: fnOctetLength_def)
  from g 1 2 3 show ?thesis by blast
qed

text \<open>
  Claim C7. For an operand all of whose columns are of the fixed-length bytes, address or
  dynamic-length bytes kind, \<open>fnOctetLength\<close> succeeds: the result has one row per input
  row, every schema column is the unsigned kind of size 32, and every value is the byte
  length of the corresponding input value. An operand with a column of any other kind fails
  with the invalid-data-type error. The guard \<^verbatim>\<open>metaAllDynBytes\<close> is modelled from the
  spec; under the reference codec the unsigned kind of size 32 holds every slice length.
\<close>

theorem fnOctetLength_spec:
  "(1 \<le> length (Input ins) \<and>
      (\<forall>dType \<in> set (Meta (Input ins ! 0)).
         fst (DecomposeDataType dType)
           \<in> {DataTypeMajorFixedBytes, DataTypeMajorAddress, DataTypeMajorDynamicBytes})
    \<longrightarrow> fnOctetLength X ctx ins n =
          Inr \<lparr>IsImmediate = False,
               Meta = replicate (length (Meta (Input ins ! 0)))
                        (ComposeDataType DataTypeMajorUint 32),
               Data = map (map (\<lambda>r. \<lparr>Value = of_nat (length (Bytes r)), Bytes = [], Spare = []\<rparr>))
                          (Data (Input ins ! 0))\<rparr>)
   \<and> (1 \<le> length (Input ins) \<and>
        (\<exists>dType \<in> set (Meta (Input ins ! 0)).
           fst (DecomposeDataType dType)
             \<notin> {DataTypeMajorFixedBytes, DataTypeMajorAddress, DataTypeMajorDynamicBytes})
      \<longrightarrow> fnOctetLength X ctx ins n = Inl ErrorCodeInvalidDataType)
   \<and> (\<forall>t \<in> set (Data (Input ins ! 0)). \<forall>r \<in> set t.
         length (Bytes r) < 2 ^ 63 \<longrightarrow>
         (\<exists>bs. ref_DecimalEncode (ComposeDataType DataTypeMajorUint 32)
                 (of_nat (length (Bytes r))) = Inr bs))"
proof (intro conjI impI)
  assume a: "1 \<le> length (Input ins) \<and>
      (\<forall>dType \<in> set (Meta (Input ins ! 0)).
         fst (DecomposeDataType dType)
           \<in> {DataTypeMajorFixedBytes, DataTypeMajorAddress, DataTypeMajorDynamicBytes})"
  then have "metaAllDynBytes (Input ins ! 0)"
    unfolding metaAllDynBytes_def metaAll_def list_all_iff metaDynBytes_iff by blast
  with a show "fnOctetLength X ctx ins n =
          Inr \<lparr>IsImmediate = False,
               Meta = replicate (length (Meta (Input ins ! 0)))
                        (ComposeDataType DataTypeMajorUint 32),
               Data = map (map (\<lambda>r. \<lparr>Value = of_nat (length (Bytes r)), Bytes = [], Spare = []\<rparr>))
                          (Data (Input ins ! 0))\<rparr>"
    by (cases "Input ins") (simp_all add: fnOctetLength_def Let_def)
next
  assume a: "1 \<le> length (Input ins) \<and>
        (\<exists>dType \<in> set (Meta (Input ins ! 0)).
           fst (DecomposeDataType dType)
             \<notin> {DataTypeMajorFixedBytes, DataTypeMajorAddress, DataTypeMajorDynamicBytes})"
  then have "\<not> metaAllDynBytes (Input ins ! 0)"
    unfolding metaAllDynBytes_def metaAll_def list_all_iff metaDynBytes_iff by blast
  with a show "fnOctetLength X ctx ins n = Inl ErrorCodeInvalidDataType"
    by (cases "Input ins") (simp_all add: fnOctetLength_def Let_def)
next
  show "\<forall>t \<in> set (Data (Input ins ! 0)). \<forall>r \<in> set t.
         length (Bytes r) < 2 ^ 63 \<longrightarrow>
         (\<exists>bs. ref_DecimalEncode (ComposeDataType DataTypeMajorUint 32)
                 (of_nat (length (Bytes r))) = Inr bs)"
    using ref_uint32_wide by blast
qed

theorem fnOctetLength_spec_witness:
  "fnOctetLength refX ctx1000 \<lparr>Input = [bytesOperand helloWorld]\<rparr> 1
     = Inr \<lparr>IsImmediate = False, Meta = [ComposeDataType DataTypeMajorUint 32],
            Data = [[\<lparr>Value = 11, Bytes = [], Spare = []\<rparr>]]\<rparr>
   \<and> fnOctetLength refX ctx1000 \<lparr>Input = [uint8Operand [7]]\<rparr> 1
     = Inl ErrorCodeInvalidDataType
   \<and> length helloWorld < 2 ^ 63
   \<and> (\<exists>bs. ref_DecimalEncode (ComposeDataType DataTypeMajorUint 32)
            (of_nat (length helloWorld)) = Inr bs)"
proof -
  let ?a = "\<lparr>Input = [bytesOperand helloWorld]\<rparr>"
  let ?b = "\<lparr>Input = [uint8Operand [7]]\<rparr>"
  have ha: "1 \<le> length (Input ?a) \<and>
      (\<forall>dType \<in> set (Meta (Input ?a ! 0)).
         fst (DecomposeDataType dType)
           \<in> {DataTypeMajorFixedBytes, DataTypeMajorAddress, DataTypeMajorDynamicBytes})"
    by (simp add: bytesOperand_def)
  have hb: "1 \<le> length (Input ?b) \<and>
        (\<exists>dType \<in> set (Meta (Input ?b ! 0)).
           fst (DecomposeDataType dType)
             \<notin> {DataTypeMajorFixedBytes, DataTypeMajorAddress, DataTypeMajorDynamicBytes})"
    by (simp add: uint8Operand_def)
  from fnOctetLength_spec [of ?a refX ctx1000 1] ha
  have "fnOctetLength refX ctx1000 ?a 1 =
          Inr \<lparr>IsImmediate = False,
               Meta = replicate (length (Meta (Input ?a ! 0)))
                        (ComposeDataType DataTypeMajorUint 32),
               Data = map (map (\<lambda>r. \<lparr>Value = of_nat (length (Bytes r)), Bytes = [], Spare = []\<rparr>))
                          (Data (Input ?a ! 0))\<rparr>"
    by blast
  then have 1: "fnOctetLength refX ctx1000 ?a 1
     = Inr \<lparr>IsImmediate = False, Meta = [ComposeDataType DataTypeMajorUint 32],
            Data = [[\<lparr>Value = 11, Bytes = [], Spare = []\<rparr>]]\<rparr>"
    by (simp add: bytesOperand_def helloWorld_def)
  from fnOctetLength_spec [of ?b refX ctx1000 1] hb
  have 2: "fnOctetLength refX ctx1000 ?b 1 = Inl ErrorCodeInvalidDataType"
    by blast
  have 3: "length helloWorld < 2 ^ 63" by (simp add: helloWorld_def)
  have "\<lparr>Value = 0, Bytes = helloWorld, Spare = []\<rparr> \<in> set [\<lparr>Value = 0, Bytes = helloWorld, Spare = []\<rparr>]"
       "[\<lparr>Value = 0, Bytes = helloWorld, Spare = []\<rparr>] \<in> set (Data (Input ?a ! 0))"
    by (simp_all add: bytesOperand_def)
  with fnOctetLength_spec [of ?a refX ctx1000 1] 3
  have 4: "\<exists>bs. ref_DecimalEncode (ComposeDataType DataTypeMajorUint 32)
            (of_nat (length (Bytes \<lparr>Value = 0, Bytes = helloWorld, Spare = []\<rparr>))) = Inr bs"
    by (metis Raw.select_convs(2))
  from 1 2 3 4 show ?thesis by simp
qed

text \<open>
  Claim C8, as amended. In a substring call with at least three operands, a start argument
  that resolves to a number of 64-bit unsigned values other than one fails with the
  index-out-of-range error; the start argument having resolved, so does a length argument
  that resolves to a number of values other than one. A start argument that does not
  resolve makes the call fail with the error of its conversion, whatever the length
  argument is. A call that returns a result has a start and a length that each resolve to
  exactly one value. The claim as written gives the index-out-of-range error to every
  multi-row length argument: the code converts the start argument first and returns its
  error.
\<close>

theorem fnSubString_scalar_arguments:
  "(3 \<le> length (Input ins) \<and> toUint64 X (Input ins ! 1) = Inr starts \<and> length starts \<noteq> 1
      \<longrightarrow> fnSubString X ctx ins n = Inl ErrorCodeIndexOutOfRange)
   \<and> (3 \<le> length (Input ins) \<and> toUint64 X (Input ins ! 1) = Inr starts
        \<and> toUint64 X (Input ins ! 2) = Inr lens \<and> length lens \<noteq> 1
      \<longrightarrow> fnSubString X ctx ins n = Inl ErrorCodeIndexOutOfRange)
   \<and> (fnSubString X ctx ins n = Inr res
      \<longrightarrow> (\<exists>start len'. toUint64 X (Input ins ! 1) = Inr [start]
                        \<and> toUint64 X (Input ins ! 2) = Inr [len']))
   \<and> (3 \<le> length (Input ins) \<and> toUint64 X (Input ins ! 1) = Inl err
      \<longrightarrow> fnSubString X ctx ins n = Inl err)"
proof (intro conjI impI)
  assume "3 \<le> length (Input ins) \<and> toUint64 X (Input ins ! 1) = Inr starts \<and> length starts \<noteq> 1"
  then show "fnSubString X ctx ins n = Inl ErrorCodeIndexOutOfRange"
    by (simp add: fnSubString_def Let_def)
next
  assume "3 \<le> length (Input ins) \<and> toUint64 X (Input ins ! 1) = Inr starts
        \<and> toUint64 X (Input ins ! 2) = Inr lens \<and> length lens \<noteq> 1"
  then show "fnSubString X ctx ins n = Inl ErrorCodeIndexOutOfRange"
    by (simp add: fnSubString_def Let_def)
next
  assume r: "fnSubString X ctx ins n = Inr res"
  have one: "\<exists>x. xs = [x]" if "length xs = 1" for xs :: "uint64 list"
    using that by (cases xs) auto
  from r obtain starts lens where "toUint64 X (Input ins ! 1) = Inr starts" "length starts = 1"
      "toUint64 X (Input ins ! 2) = Inr lens" "length lens = 1"
    by (auto simp: fnSubString_def Let_def split: if_splits sum.splits)
  then show "\<exists>start len'. toUint64 X (Input ins ! 1) = Inr [start]
                        \<and> toUint64 X (Input ins ! 2) = Inr [len']"
    using one [of starts] one [of lens] by auto
next
  assume "3 \<le> length (Input ins) \<and> toUint64 X (Input ins ! 1) = Inl err"
  then show "fnSubString X ctx ins n = Inl err"
    by (simp add: fnSubString_def Let_def)
qed

theorem fnSubString_scalar_arguments_witness:
  "toUint64 refX (uint8Operand [1, 2]) = Inr [1, 2]
   \<and> fnSubString refX ctx1000
        \<lparr>Input = [bytesOperand helloWorld, uint8Operand [1, 2], scalarOperand 5]\<rparr> 2
       = Inl ErrorCodeIndexOutOfRange
   \<and> fnSubString refX ctx1000
        \<lparr>Input = [bytesOperand helloWorld, scalarOperand 6, uint8Operand [1, 2]]\<rparr> 2
       = Inl ErrorCodeIndexOutOfRange
   \<and> fnSubString refX ctx1000
        \<lparr>Input = [bytesOperand helloWorld, scalarOperand 6, scalarOperand 5]\<rparr> 1
       = Inr (bytesOperand [0x77, 0x6f, 0x72, 0x6c, 0x64])
   \<and> (\<exists>start len'. toUint64 refX (scalarOperand 6) = Inr [start]
                     \<and> toUint64 refX (scalarOperand 5) = Inr [len'])
   \<and> toUint64 refX (scalarOperand (- 1)) = Inl ErrorExternal
   \<and> fnSubString refX ctx1000
        \<lparr>Input = [bytesOperand helloWorld, scalarOperand (- 1), scalarOperand 5]\<rparr> 1
       = Inl ErrorExternal"
proof -
  let ?a = "\<lparr>Input = [bytesOperand helloWorld, uint8Operand [1, 2], scalarOperand 5]\<rparr>"
  let ?b = "\<lparr>Input = [bytesOperand helloWorld, scalarOperand 6, uint8Operand [1, 2]]\<rparr>"
  have u: "toUint64 refX (uint8Operand [1, 2]) = Inr [1, 2]"
    by (simp add: refX_def ref_toUint64_def uint8Operand_def elemAt_def ref_DecimalToUint64_def)
  have ha: "3 \<le> length (Input ?a) \<and> toUint64 refX (Input ?a ! 1) = Inr [1, 2]
              \<and> length [1 :: uint64, 2] \<noteq> 1"
    by (simp add: u)
  have hb: "3 \<le> length (Input ?b) \<and> toUint64 refX (Input ?b ! 1) = Inr [6]
              \<and> toUint64 refX (Input ?b ! 2) = Inr [1, 2] \<and> length [1 :: uint64, 2] \<noteq> 1"
    by (simp add: u ref_toUint64_6)
  from fnSubString_scalar_arguments
         [where ins = ?a and X = refX and starts = "[1, 2]" and ctx = ctx1000 and n = 2] ha
  have 1: "fnSubString refX ctx1000 ?a 2 = Inl ErrorCodeIndexOutOfRange" by blast
  from fnSubString_scalar_arguments
         [where ins = ?b and X = refX and starts = "[6]" and ctx = ctx1000 and n = 2
            and lens = "[1, 2]"] hb
  have 2: "fnSubString refX ctx1000 ?b 2 = Inl ErrorCodeIndexOutOfRange" by blast
  let ?c = "\<lparr>Input = [bytesOperand helloWorld, scalarOperand 6, scalarOperand 5]\<rparr>"
  have 3: "fnSubString refX ctx1000 ?c 1 = Inr (bytesOperand [0x77, 0x6f, 0x72, 0x6c, 0x64])"
    by (rule fnSubString_hello_world)
  from fnSubString_scalar_arguments
         [where ins = ?c and X = refX and ctx = ctx1000 and n = 1
            and res = "bytesOperand [0x77, 0x6f, 0x72, 0x6c, 0x64]"] 3
  have "\<exists>start len'. toUint64 refX (Input ?c ! 1) = Inr [start]
                     \<and> toUint64 refX (Input ?c ! 2) = Inr [len']"
    by blast
  then have 4: "\<exists>start len'. toUint64 refX (scalarOperand 6) = Inr [start]
                     \<and> toUint64 refX (scalarOperand 5) = Inr [len']"
    by simp
  let ?d = "\<lparr>Input = [bytesOperand helloWorld, scalarOperand (- 1), scalarOperand 5]\<rparr>"
  have 5: "toUint64 refX (scalarOperand (- 1)) = Inl ErrorExternal"
    by (rule ref_toUint64_negative)
  then have hd: "3 \<le> length (Input ?d) \<and> toUint64 refX (Input ?d ! 1) = Inl ErrorExternal"
    by simp
  from fnSubString_scalar_arguments
         [where ins = ?d and X = refX and ctx = ctx1000 and n = 1 and err = ErrorExternal] hd
  have 6: "fnSubString refX ctx1000 ?d 1 = Inl ErrorExternal" by blast
  from u 1 2 3 4 5 6 show ?thesis by blast
qed

theorem fnSubString_scalar_arguments_counterexample:
  "toUint64 refX (uint8Operand [1, 2]) = Inr [1, 2]
   \<and> fnSubString refX ctx1000
        \<lparr>Input = [bytesOperand helloWorld, scalarOperand (- 1), uint8Operand [1, 2]]\<rparr> 2
       = Inl ErrorExternal"
proof -
  have u: "toUint64 refX (uint8Operand [1, 2]) = Inr [1, 2]"
    by (simp add: refX_def ref_toUint64_def uint8Operand_def elemAt_def ref_DecimalToUint64_def)
  have "fnSubString refX ctx1000
        \<lparr>Input = [bytesOperand helloWorld, scalarOperand (- 1), uint8Operand [1, 2]]\<rparr> 2
       = Inl ErrorExternal"
    by (simp add: fnSubString_def Let_def ref_toUint64_negative)
  with u show ?thesis by blast
qed

text \<open>
  Claim C9, as amended. In a substring call whose start and length each resolve to one
  value, on source slices whose capacity fits a Go \<^verbatim>\<open>int\<close>: when every source value has
  at least \<open>start + length\<close> bytes, every output value is the half-open byte range from
  \<open>start\<close> to \<open>start + length\<close> of its source value, so the bytes of \<^verbatim>\<open>hello world\<close> at
  start 6 and length 5 give the bytes of \<^verbatim>\<open>world\<close>. When some source slice has a capacity
  smaller than \<open>start + length\<close>, the call returns no error code but panics on the slice
  bounds. When every source slice has a capacity of at least \<open>start + length\<close>, the call
  does not panic even if a source value is shorter than \<open>start + length\<close>: the output
  then runs on into the spare elements of the backing array. The claim as written puts
  the bound at the length of the source value; Go puts it at the capacity.
\<close>

theorem fnSubString_range:
  assumes "3 \<le> length (Input ins)"
      and "toUint64 X (Input ins ! 1) = Inr [start]"
      and "toUint64 X (Input ins ! 2) = Inr [len']"
      and "\<forall>t \<in> set (Data (Input ins ! 0)). \<forall>r \<in> set t.
             length (Bytes r) + length (Spare r) < 2 ^ 63"
  shows "((\<forall>t \<in> set (Data (Input ins ! 0)). \<forall>r \<in> set t.
             unat start + unat len' \<le> length (Bytes r)) \<longrightarrow>
          fnSubString X ctx ins n =
            Inr \<lparr>IsImmediate = False,
                 Meta = replicate (length (Meta (Input ins ! 0)))
                          (ComposeDataType DataTypeMajorDynamicBytes 0),
                 Data = map (map (\<lambda>r. \<lparr>Value = 0,
                                        Bytes = take (unat len') (drop (unat start) (Bytes r)),
                                        Spare = drop (unat start + unat len')
                                                  (Bytes r @ Spare r)\<rparr>))
                            (Data (Input ins ! 0))\<rparr>)
       \<and> ((\<exists>t \<in> set (Data (Input ins ! 0)). \<exists>r \<in> set t.
              length (Bytes r) + length (Spare r) < unat start + unat len') \<longrightarrow>
           fnSubString X ctx ins n = Inl Panic)
       \<and> ((\<forall>t \<in> set (Data (Input ins ! 0)). \<forall>r \<in> set t.
              unat start + unat len' \<le> length (Bytes r) + length (Spare r)) \<longrightarrow>
           fnSubString X ctx ins n =
             Inr \<lparr>IsImmediate = False,
                  Meta = replicate (length (Meta (Input ins ! 0)))
                           (ComposeDataType DataTypeMajorDynamicBytes 0),
                  Data = map (map (\<lambda>r. \<lparr>Value = 0,
                                         Bytes = take (unat len')
                                                   (drop (unat start) (Bytes r @ Spare r)),
                                         Spare = drop (unat start + unat len')
                                                   (Bytes r @ Spare r)\<rparr>))
                             (Data (Input ins ! 0))\<rparr>)
       \<and> fnSubString refX ctx
            \<lparr>Input = [bytesOperand helloWorld, scalarOperand 6, scalarOperand 5]\<rparr> 1
           = Inr (bytesOperand [0x77, 0x6f, 0x72, 0x6c, 0x64])"
  using fnSubString_in_range [OF assms] fnSubString_out_of_range [OF assms]
        fnSubString_in_capacity [OF assms] fnSubString_hello_world
  by blast

theorem fnSubString_range_witness:
  "fnSubString refX ctx1000
       \<lparr>Input = [bytesOperand helloWorld, scalarOperand 6, scalarOperand 5]\<rparr> 1
     = Inr \<lparr>IsImmediate = False, Meta = [ComposeDataType DataTypeMajorDynamicBytes 0],
            Data = [[\<lparr>Value = 0, Bytes = [0x77, 0x6f, 0x72, 0x6c, 0x64], Spare = []\<rparr>]]\<rparr>
   \<and> fnSubString refX ctx1000
       \<lparr>Input = [bytesOperand helloWorld, scalarOperand 6, scalarOperand 6]\<rparr> 1
     = Inl Panic
   \<and> fnSubString refX ctx1000
       \<lparr>Input = [spareOperand [0x77, 0x6f, 0x72] [0x6c, 0x64], scalarOperand 0, scalarOperand 5]\<rparr> 1
     = Inr \<lparr>IsImmediate = False, Meta = [ComposeDataType DataTypeMajorDynamicBytes 0],
            Data = [[\<lparr>Value = 0, Bytes = [0x77, 0x6f, 0x72, 0x6c, 0x64], Spare = []\<rparr>]]\<rparr>"
proof -
  let ?i5 = "\<lparr>Input = [bytesOperand helloWorld, scalarOperand 6, scalarOperand 5]\<rparr>"
  let ?i6 = "\<lparr>Input = [bytesOperand helloWorld, scalarOperand 6, scalarOperand 6]\<rparr>"
  let ?is = "\<lparr>Input = [spareOperand [0x77, 0x6f, 0x72] [0x6c, 0x64], scalarOperand 0,
                      scalarOperand 5]\<rparr>"
  have s6: "toUint64 refX (scalarOperand 6) = Inr [6]"
    using ref_toUint64_scalar [of 6] by simp
  have a5: "3 \<le> length (Input ?i5)" "toUint64 refX (Input ?i5 ! 1) = Inr [6]"
           "toUint64 refX (Input ?i5 ! 2) = Inr [5]"
           "\<forall>t \<in> set (Data (Input ?i5 ! 0)). \<forall>r \<in> set t.
              length (Bytes r) + length (Spare r) < 2 ^ 63"
    by (simp_all add: ref_toUint64_6 ref_toUint64_5 bytesOperand_def helloWorld_def)
  have a6: "3 \<le> length (Input ?i6)" "toUint64 refX (Input ?i6 ! 1) = Inr [6]"
           "toUint64 refX (Input ?i6 ! 2) = Inr [6]"
           "\<forall>t \<in> set (Data (Input ?i6 ! 0)). \<forall>r \<in> set t.
              length (Bytes r) + length (Spare r) < 2 ^ 63"
    by (simp_all add: s6 bytesOperand_def helloWorld_def)
  have as: "3 \<le> length (Input ?is)" "toUint64 refX (Input ?is ! 1) = Inr [0]"
           "toUint64 refX (Input ?is ! 2) = Inr [5]"
           "\<forall>t \<in> set (Data (Input ?is ! 0)). \<forall>r \<in> set t.
              length (Bytes r) + length (Spare r) < 2 ^ 63"
    by (simp_all add: ref_toUint64_0 ref_toUint64_5 spareOperand_def)
  have ok: "\<forall>t \<in> set (Data (Input ?i5 ! 0)). \<forall>r \<in> set t.
              unat (6 :: uint64) + unat (5 :: uint64) \<le> length (Bytes r)"
    by (simp add: bytesOperand_def helloWorld_def)
  have bad: "\<exists>t \<in> set (Data (Input ?i6 ! 0)). \<exists>r \<in> set t.
              length (Bytes r) + length (Spare r) < unat (6 :: uint64) + unat (6 :: uint64)"
    by (simp add: bytesOperand_def helloWorld_def)
  have cap: "\<forall>t \<in> set (Data (Input ?is ! 0)). \<forall>r \<in> set t.
              unat (0 :: uint64) + unat (5 :: uint64) \<le> length (Bytes r) + length (Spare r)"
    by (simp add: spareOperand_def)
  from fnSubString_range [OF a5, where ctx = ctx1000 and n = 1] ok
  have "fnSubString refX ctx1000 ?i5 1 =
          Inr \<lparr>IsImmediate = False,
               Meta = replicate (length (Meta (Input ?i5 ! 0)))
                        (ComposeDataType DataTypeMajorDynamicBytes 0),
               Data = map (map (\<lambda>r. \<lparr>Value = 0,
                                      Bytes = take (unat (5 :: uint64))
                                                (drop (unat (6 :: uint64)) (Bytes r)),
                                      Spare = drop (unat (6 :: uint64) + unat (5 :: uint64))
                                                (Bytes r @ Spare r)\<rparr>))
                          (Data (Input ?i5 ! 0))\<rparr>"
    by blast
  then have 1: "fnSubString refX ctx1000 ?i5 1
     = Inr \<lparr>IsImmediate = False, Meta = [ComposeDataType DataTypeMajorDynamicBytes 0],
            Data = [[\<lparr>Value = 0, Bytes = [0x77, 0x6f, 0x72, 0x6c, 0x64], Spare = []\<rparr>]]\<rparr>"
    by (simp add: bytesOperand_def helloWorld_def)
  from fnSubString_range [OF a6, where ctx = ctx1000 and n = 1] bad
  have 2: "fnSubString refX ctx1000 ?i6 1 = Inl Panic"
    by blast
  from fnSubString_range [OF as, where ctx = ctx1000 and n = 1] cap
  have "fnSubString refX ctx1000 ?is 1 =
          Inr \<lparr>IsImmediate = False,
               Meta = replicate (length (Meta (Input ?is ! 0)))
                        (ComposeDataType DataTypeMajorDynamicBytes 0),
               Data = map (map (\<lambda>r. \<lparr>Value = 0,
                                      Bytes = take (unat (5 :: uint64))
                                                (drop (unat (0 :: uint64)) (Bytes r @ Spare r)),
                                      Spare = drop (unat (0 :: uint64) + unat (5 :: uint64))
                                                (Bytes r @ Spare r)\<rparr>))
                          (Data (Input ?is ! 0))\<rparr>"
    by blast
  then have 3: "fnSubString refX ctx1000 ?is 1
     = Inr \<lparr>IsImmediate = False, Meta = [ComposeDataType DataTypeMajorDynamicBytes 0],
            Data = [[\<lparr>Value = 0, Bytes = [0x77, 0x6f, 0x72, 0x6c, 0x64], Spare = []\<rparr>]]\<rparr>"
    by (simp add: spareOperand_def)
  from 1 2 3 show ?thesis by blast
qed

theorem fnSubString_range_counterexample:
  "fnSubString refX ctx1000
       \<lparr>Input = [bytesOperand helloWorld, scalarOperand 6, scalarOperand 3]\<rparr> 1
     = Inr (spareOperand [0x77, 0x6f, 0x72] [0x6c, 0x64])
   \<and> length [0x77, 0x6f, 0x72 :: byte] < unat (0 :: uint64) + unat (5 :: uint64)
   \<and> fnSubString refX ctx1000
       \<lparr>Input = [spareOperand [0x77, 0x6f, 0x72] [0x6c, 0x64], scalarOperand 0, scalarOperand 5]\<rparr> 1
     = Inr (bytesOperand [0x77, 0x6f, 0x72, 0x6c, 0x64])"
  by (simp add: fnSubString_hello_wor fnSubString_beyond_length)

section \<open>The reference codec keeps the codec contract\<close>

lemma be_decode_snoc: "be_decode (bs @ [b]) = be_decode bs * 256 + uint b"
  by (simp add: be_decode_def)

lemma be_decode_bounds: "0 \<le> be_decode bs \<and> be_decode bs < 256 ^ length bs"
proof (induction bs rule: rev_induct)
  case Nil
  show ?case by (simp add: be_decode_def)
next
  case (snoc b bs)
  have b: "0 \<le> uint b" "uint b < 256"
    using uint_lt2p [of b] by simp_all
  from snoc have "be_decode bs + 1 \<le> 256 ^ length bs" by simp
  then have "(be_decode bs + 1) * 256 \<le> 256 ^ length bs * 256" by (rule mult_right_mono) simp
  with snoc b show ?case by (simp add: be_decode_snoc algebra_simps)
qed

lemma be_encode_decode: "length bs = n \<Longrightarrow> be_encode n (be_decode bs) = bs"
proof (induction bs arbitrary: n rule: rev_induct)
  case Nil
  then show ?case by simp
next
  case (snoc b bs)
  then obtain m where n: "n = Suc m" and m: "length bs = m" by (cases n) auto
  have b: "0 \<le> uint b" "uint b < 256"
    using uint_lt2p [of b] by simp_all
  have d: "(be_decode bs * 256 + uint b) div 256 = be_decode bs"
    using b by simp
  have w: "(word_of_int (be_decode bs * 256 + uint b) :: byte) = b"
  proof -
    have "(word_of_int (be_decode bs * 256 + uint b) :: byte)
            = word_of_int (be_decode bs) * 256 + word_of_int (uint b)"
      by simp
    also have "(256 :: byte) = 0" by simp
    finally show ?thesis by simp
  qed
  show ?case by (simp only: n be_decode_snoc be_encode.simps d w snoc.IH [OF m])
qed

lemma be_decode_encode: "0 \<le> v \<Longrightarrow> v < 256 ^ n \<Longrightarrow> be_decode (be_encode n v) = v"
proof (induction n arbitrary: v)
  case 0
  then show ?case by (simp add: be_decode_def)
next
  case (Suc n)
  have "0 \<le> v div 256" using Suc.prems(1) by simp
  moreover have "v div 256 < 256 ^ n" using Suc.prems by simp
  ultimately have IH: "be_decode (be_encode n (v div 256)) = v div 256" by (rule Suc.IH)
  have "uint (word_of_int v :: byte) = v mod 256"
    by (simp add: uint_word_of_int)
  then show ?case by (simp add: be_decode_snoc IH)
qed

lemma ref_uint_bitValue:
  assumes "v = of_int \<lfloor>v\<rfloor>" "0 \<le> v" "v < 256 ^ Suc m"
  shows "bitValue refX (ComposeDataType DataTypeMajorUint m) \<lparr>Value = v, Bytes = [], Spare = []\<rparr>"
proof -
  let ?T = "ComposeDataType DataTypeMajorUint m"
  let ?b = "be_encode (Suc m) \<lfloor>v\<rfloor>"
  have fl: "0 \<le> \<lfloor>v\<rfloor>" "\<lfloor>v\<rfloor> < 256 ^ Suc m"
    using assms by (simp_all add: floor_less_iff)
  have 1: "toBytes refX \<lparr>Value = v, Bytes = [], Spare = []\<rparr> ?T = Inr ?b"
    using assms by (simp add: toBytes_def refX_def ref_DecimalEncode_def del: be_encode.simps power_Suc)
  have "be_decode ?b = \<lfloor>v\<rfloor>" using fl by (rule be_decode_encode)
  then have 2: "fromBytes refX \<lparr>Value = 0, Bytes = [], Spare = []\<rparr> ?b ?T = Inr \<lparr>Value = v, Bytes = [], Spare = []\<rparr>"
    using assms(1)
    by (simp add: fromBytes_def refX_def ref_DecimalDecode_def be_encode_length del: be_encode.simps)
  have 3: "\<exists>r. fromBytes refX \<lparr>Value = 0, Bytes = [], Spare = []\<rparr> bs ?T = Inr r \<and> toBytes refX r ?T = Inr bs"
    if "length bs = length ?b" for bs
  proof -
    have l: "length bs = Suc m" using that by (simp add: be_encode_length del: be_encode.simps)
    have bd: "0 \<le> be_decode bs" "be_decode bs < 256 ^ Suc m"
      using be_decode_bounds [of bs] l by simp_all
    have "fromBytes refX \<lparr>Value = 0, Bytes = [], Spare = []\<rparr> bs ?T
            = Inr \<lparr>Value = of_int (be_decode bs), Bytes = [], Spare = []\<rparr>"
      using l by (simp add: fromBytes_def refX_def ref_DecimalDecode_def)
    moreover have "toBytes refX \<lparr>Value = of_int (be_decode bs), Bytes = [], Spare = []\<rparr> ?T = Inr bs"
    proof -
      have "(of_int (be_decode bs) :: rat) < of_int (256 ^ Suc m)"
        using bd(2) by (simp only: of_int_less_iff)
      then have "(of_int (be_decode bs) :: rat) < 256 ^ Suc m" by simp
      then show ?thesis
        using bd(1) be_encode_decode [OF l]
        by (simp add: toBytes_def refX_def ref_DecimalEncode_def del: be_encode.simps power_Suc)
    qed
    ultimately show ?thesis by blast
  qed
  from 1 2 3 show ?thesis unfolding bitValue_def by blast
qed

lemma bitValue_FixedBytes:
  "bitValue X (ComposeDataType DataTypeMajorFixedBytes m) \<lparr>Value = 0, Bytes = bs, Spare = []\<rparr>"
  unfolding bitValue_def
  by (intro exI [of _ bs]) (simp add: toBytes_def fromBytes_def)

section \<open>Properties of bit-not\<close>

lemma mapF_total:
  "(\<And>x. x \<in> set xs \<Longrightarrow> \<exists>y. f x = Inr y) \<Longrightarrow> mapF f xs = Inr (map (\<lambda>x. projr (f x)) xs)"
proof (rule mapF_all_Inr)
  fix x assume "(\<And>x. x \<in> set xs \<Longrightarrow> \<exists>y. f x = Inr y)" "x \<in> set xs"
  then obtain y where "f x = Inr y" by blast
  then show "f x = Inr (projr (f x))" by simp
qed

lemma Raw_bitUnOp_typed:
  assumes "bitValue X dType x" and "toBytes X x dType = Inr b"
  shows "\<exists>y. Raw_bitUnOp X x dType bFn = Inr y \<and> toBytes X y dType = Inr (map bFn b)
             \<and> bitValue X dType y"
proof -
  from assms have tot: "\<forall>bs. length bs = length b \<longrightarrow>
                 (\<exists>r. fromBytes X \<lparr>Value = 0, Bytes = [], Spare = []\<rparr> bs dType = Inr r
                     \<and> toBytes X r dType = Inr bs)"
    unfolding bitValue_def by auto
  then obtain y where y: "fromBytes X \<lparr>Value = 0, Bytes = [], Spare = []\<rparr> (map bFn b) dType = Inr y"
      "toBytes X y dType = Inr (map bFn b)"
    by (metis length_map)
  have "bitValue X dType y"
    unfolding bitValue_def using y tot by (intro exI [of _ "map bFn b"]) simp
  moreover have "Raw_bitUnOp X x dType bFn = Inr y"
    using assms(2) y(1) by (simp add: Raw_bitUnOp_def)
  ultimately show ?thesis using y(2) by blast
qed


lemma Raw_bitNot_twice:
  assumes "bitValue X dType x"
  shows "\<exists>y. Raw_bitUnOp X x dType (\<lambda>b. NOT b) = Inr y
             \<and> Raw_bitUnOp X y dType (\<lambda>b. NOT b) = Inr x"
proof -
  from assms obtain b where b: "toBytes X x dType = Inr b"
      "fromBytes X \<lparr>Value = 0, Bytes = [], Spare = []\<rparr> b dType = Inr x"
    unfolding bitValue_def by blast
  from Raw_bitUnOp_typed [OF assms b(1), of "\<lambda>b. NOT b"]
  obtain y where y: "Raw_bitUnOp X x dType (\<lambda>b. NOT b) = Inr y"
      "toBytes X y dType = Inr (map (\<lambda>b. NOT b) b)"
    by blast
  have "map (\<lambda>b. NOT b) (map (\<lambda>b. NOT b) b) = b" by (simp add: o_def)
  then have "Raw_bitUnOp X y dType (\<lambda>b. NOT b) = Inr x"
    using y(2) b(2) by (simp add: Raw_bitUnOp_def)
  with y(1) show ?thesis by blast
qed

lemma Tuple_bitUnOp_Inr_iff:
  "Tuple_bitUnOp X t meta bFn = Inr t' \<longleftrightarrow>
     length t' = length t \<and>
     (\<forall>i < length t. i < length meta \<and> Raw_bitUnOp X (t ! i) (meta ! i) bFn = Inr (t' ! i))"
  unfolding Tuple_bitUnOp_def mapF_Inr_iff
  by (auto simp: elemAt_def split: if_splits)

lemma Tuple_bitNot_twice:
  assumes len: "length t \<le> length meta"
      and typed: "\<forall>j < length t. bitValue X (meta ! j) (t ! j)"
  shows "\<exists>t'. Tuple_bitUnOp X t meta (\<lambda>b. NOT b) = Inr t'
              \<and> Tuple_bitUnOp X t' meta (\<lambda>b. NOT b) = Inr t"
proof -
  let ?y = "\<lambda>j. projr (Raw_bitUnOp X (t ! j) (meta ! j) (\<lambda>b. NOT b))"
  let ?t' = "map ?y [0..<length t]"
  have cell: "Raw_bitUnOp X (t ! j) (meta ! j) (\<lambda>b. NOT b) = Inr (?y j)
              \<and> Raw_bitUnOp X (?y j) (meta ! j) (\<lambda>b. NOT b) = Inr (t ! j)"
    if "j < length t" for j
  proof -
    from typed that have "bitValue X (meta ! j) (t ! j)" by blast
    from Raw_bitNot_twice [OF this] show ?thesis by auto
  qed
  have 1: "Tuple_bitUnOp X t meta (\<lambda>b. NOT b) = Inr ?t'"
    unfolding Tuple_bitUnOp_Inr_iff using cell len by simp
  have 2: "Tuple_bitUnOp X ?t' meta (\<lambda>b. NOT b) = Inr t"
    unfolding Tuple_bitUnOp_Inr_iff using cell len by simp
  from 1 2 show ?thesis by blast
qed

lemma fnBitNot_twice:
  assumes arity: "1 \<le> length (Input ins)"
      and guard: "metaAllBitOp (Input ins ! 0)"
      and cols: "\<forall>t \<in> set (Data (Input ins ! 0)). length t \<le> length (Meta (Input ins ! 0))"
      and typed: "\<forall>t \<in> set (Data (Input ins ! 0)). \<forall>j < length t.
                    bitValue X (Meta (Input ins ! 0) ! j) (t ! j)"
  shows "\<exists>res. fnBitNot X ctx ins n = Inr res
              \<and> fnBitNot X ctx \<lparr>Input = [res]\<rparr> n = Inr (Input ins ! 0)"
proof -
  let ?op = "Input ins ! 0"
  let ?f = "\<lambda>t. Tuple_bitUnOp X t (Meta ?op) (\<lambda>b. NOT b)"
  let ?rows = "map (\<lambda>t. projr (?f t)) (Data ?op)"
  let ?res = "?op\<lparr>Data := ?rows\<rparr>"
  have row: "?f t = Inr (projr (?f t)) \<and> ?f (projr (?f t)) = Inr t"
    if "t \<in> set (Data ?op)" for t
  proof -
    from cols typed that have "length t \<le> length (Meta ?op)"
        "\<forall>j < length t. bitValue X (Meta ?op ! j) (t ! j)" by blast+
    from Tuple_bitNot_twice [OF this] show ?thesis by auto
  qed
  have m1: "mapF ?f (Data ?op) = Inr ?rows"
    by (rule mapF_all_Inr) (use row in blast)
  have m2: "mapF ?f ?rows = Inr (Data ?op)"
  proof -
    have "?f (?rows ! i) = Inr (Data ?op ! i)" if "i < length (Data ?op)" for i
    proof -
      have "Data ?op ! i \<in> set (Data ?op)" using that by simp
      from row [OF this] have "?f (projr (?f (Data ?op ! i))) = Inr (Data ?op ! i)" by blast
      moreover have "?rows ! i = projr (?f (Data ?op ! i))" using that by (rule nth_map)
      ultimately show ?thesis by (simp only:)
    qed
    then show ?thesis unfolding mapF_Inr_iff by simp
  qed
  have ne: "Input ins \<noteq> []" using arity by auto
  have 1: "fnBitNot X ctx ins n = Inr ?res"
    using ne guard m1 by (simp add: fnBitNot_def Let_def Operand_clone_def)
  have g2: "metaAllBitOp ?res" using guard by (simp add: metaAllBitOp_def metaAll_def)
  have 2: "fnBitNot X ctx \<lparr>Input = [?res]\<rparr> n = Inr ?op"
    using g2 m2 by (simp add: fnBitNot_def Let_def Operand_clone_def)
  from 1 2 show ?thesis by blast
qed

lemma ref_encode_10: "toBytes refX \<lparr>Value = 10, Bytes = [], Spare = []\<rparr> (ComposeDataType DataTypeMajorUint 0) = Inr [10]"
  by (simp add: toBytes_def refX_def ref_DecimalEncode_def)

lemma ref_decode_byte:
  "fromBytes refX \<lparr>Value = 0, Bytes = [], Spare = []\<rparr> [b] (ComposeDataType DataTypeMajorUint 0)
     = Inr \<lparr>Value = of_int (uint b), Bytes = [], Spare = []\<rparr>"
  by (simp add: fromBytes_def refX_def ref_DecimalDecode_def be_decode_def)

lemma ref_bitNot_10:
  "Raw_bitUnOp refX \<lparr>Value = 10, Bytes = [], Spare = []\<rparr> (ComposeDataType DataTypeMajorUint 0) (\<lambda>b. NOT b)
     = Inr \<lparr>Value = 245, Bytes = [], Spare = []\<rparr>"
  by (simp add: Raw_bitUnOp_def ref_encode_10 ref_decode_byte)

text \<open>
  Claim C6. For every value \<open>x\<close> of a type (in the sense of \<open>bitValue\<close>), bit-not
  succeeds on \<open>x\<close> and bit-not of the result is \<open>x\<close> again. For every operand whose
  columns are all bit-operable, whose rows are no longer than the schema and whose values
  are values of their column's type, \<open>fnBitNot\<close> applied twice returns the operand. Every
  fixed-length byte string is such a value, and so is, under the reference codec, every
  unsigned integer that fits the width.
\<close>

theorem bitNot_involution:
  "(bitValue X dType x \<longrightarrow>
      (\<exists>y. Raw_bitUnOp X x dType (\<lambda>b. NOT b) = Inr y
          \<and> Raw_bitUnOp X y dType (\<lambda>b. NOT b) = Inr x))
   \<and> (1 \<le> length (Input ins) \<and> metaAllBitOp (Input ins ! 0)
        \<and> (\<forall>t \<in> set (Data (Input ins ! 0)). length t \<le> length (Meta (Input ins ! 0)))
        \<and> (\<forall>t \<in> set (Data (Input ins ! 0)). \<forall>j < length t.
              bitValue X (Meta (Input ins ! 0) ! j) (t ! j))
      \<longrightarrow> (\<exists>res. fnBitNot X ctx ins n = Inr res
                \<and> fnBitNot X ctx \<lparr>Input = [res]\<rparr> n = Inr (Input ins ! 0)))
   \<and> bitValue X (ComposeDataType DataTypeMajorFixedBytes m) \<lparr>Value = 0, Bytes = bs, Spare = []\<rparr>
   \<and> (v = of_int \<lfloor>v\<rfloor> \<and> 0 \<le> v \<and> v < 256 ^ Suc m
      \<longrightarrow> bitValue refX (ComposeDataType DataTypeMajorUint m) \<lparr>Value = v, Bytes = [], Spare = []\<rparr>)"
  using Raw_bitNot_twice [of X dType x] fnBitNot_twice [of ins X ctx n]
        bitValue_FixedBytes [of X m bs] ref_uint_bitValue [of v m]
  by blast

theorem bitNot_involution_witness:
  "bitValue refX (ComposeDataType DataTypeMajorUint 0) \<lparr>Value = 10, Bytes = [], Spare = []\<rparr>
   \<and> Raw_bitUnOp refX \<lparr>Value = 10, Bytes = [], Spare = []\<rparr> (ComposeDataType DataTypeMajorUint 0) (\<lambda>b. NOT b)
       = Inr \<lparr>Value = 245, Bytes = [], Spare = []\<rparr>
   \<and> Raw_bitUnOp refX \<lparr>Value = 245, Bytes = [], Spare = []\<rparr> (ComposeDataType DataTypeMajorUint 0) (\<lambda>b. NOT b)
       = Inr \<lparr>Value = 10, Bytes = [], Spare = []\<rparr>
   \<and> (\<exists>res. fnBitNot refX ctx1000 \<lparr>Input = [uint8Operand [10, 12]]\<rparr> 2 = Inr res
          \<and> fnBitNot refX ctx1000 \<lparr>Input = [res]\<rparr> 2 = Inr (uint8Operand [10, 12]))"
proof -
  let ?T = "ComposeDataType DataTypeMajorUint 0"
  let ?ins = "\<lparr>Input = [uint8Operand [10, 12]]\<rparr>"
  note t = bitNot_involution [of refX ?T "\<lparr>Value = 10, Bytes = [], Spare = []\<rparr>" ?ins ctx1000 2 0 "[]" 10]
  have v10: "(10 :: Decimal) = of_int \<lfloor>10 :: Decimal\<rfloor> \<and> 0 \<le> (10 :: Decimal)
               \<and> (10 :: Decimal) < 256 ^ Suc 0"
    by simp
  with t have bv: "bitValue refX ?T \<lparr>Value = 10, Bytes = [], Spare = []\<rparr>" by blast
  with t obtain y where y: "Raw_bitUnOp refX \<lparr>Value = 10, Bytes = [], Spare = []\<rparr> ?T (\<lambda>b. NOT b) = Inr y"
      "Raw_bitUnOp refX y ?T (\<lambda>b. NOT b) = Inr \<lparr>Value = 10, Bytes = [], Spare = []\<rparr>"
    by blast
  from y(1) have "y = \<lparr>Value = 245, Bytes = [], Spare = []\<rparr>" by (simp add: ref_bitNot_10)
  with y have r: "Raw_bitUnOp refX \<lparr>Value = 10, Bytes = [], Spare = []\<rparr> ?T (\<lambda>b. NOT b)
                    = Inr \<lparr>Value = 245, Bytes = [], Spare = []\<rparr>"
      "Raw_bitUnOp refX \<lparr>Value = 245, Bytes = [], Spare = []\<rparr> ?T (\<lambda>b. NOT b)
         = Inr \<lparr>Value = 10, Bytes = [], Spare = []\<rparr>"
    by simp_all
  have v12: "bitValue refX ?T \<lparr>Value = 12, Bytes = [], Spare = []\<rparr>"
    by (rule ref_uint_bitValue) simp_all
  have h: "1 \<le> length (Input ?ins) \<and> metaAllBitOp (Input ?ins ! 0)
        \<and> (\<forall>t \<in> set (Data (Input ?ins ! 0)). length t \<le> length (Meta (Input ?ins ! 0)))
        \<and> (\<forall>t \<in> set (Data (Input ?ins ! 0)). \<forall>j < length t.
              bitValue refX (Meta (Input ?ins ! 0) ! j) (t ! j))"
    using bv v12
    by (simp add: uint8Operand_def metaAllBitOp_def metaAll_def metaBitOp_def)
  with t have "\<exists>res. fnBitNot refX ctx1000 ?ins 2 = Inr res
          \<and> fnBitNot refX ctx1000 \<lparr>Input = [res]\<rparr> 2 = Inr (Input ?ins ! 0)"
    by blast
  then have o: "\<exists>res. fnBitNot refX ctx1000 ?ins 2 = Inr res
          \<and> fnBitNot refX ctx1000 \<lparr>Input = [res]\<rparr> 2 = Inr (uint8Operand [10, 12])"
    by simp
  from bv r o show ?thesis by blast
qed

section \<open>Properties of bit-and, bit-or and bit-xor\<close>

lemma metaBitOp_iff:
  "metaBitOp dType \<longleftrightarrow>
     fst (DecomposeDataType dType)
       \<in> {DataTypeMajorUint, DataTypeMajorInt, DataTypeMajorFixedBytes}"
  by (cases dType; cases "fst (DecomposeDataType dType)")
     (auto simp: metaBitOp_def)

lemma extractOps_Inr_iff:
  "extractOps X ops = Inr (n, op1, op2) \<longleftrightarrow>
     2 \<le> length ops \<and> findMaxDataLength X ops = Inr n \<and> op1 = ops ! 0 \<and> op2 = ops ! 1
     \<and> Meta op1 = Meta op2
     \<and> (\<forall>dType \<in> set (Meta op1).
           fst (DecomposeDataType dType)
             \<in> {DataTypeMajorUint, DataTypeMajorInt, DataTypeMajorFixedBytes})"
  by (auto simp: extractOps_def Let_def metaAllEq_def metaAllBitOp_def metaAll_def
        list_all_iff metaBitOp_iff split: sum.splits)

lemma extractOps_arity:
  "length ops < 2 \<Longrightarrow> extractOps X ops = Inl ErrorCodeInvalidOperandNum"
  by (simp add: extractOps_def)

lemma extractOps_type_error:
  assumes "2 \<le> length ops" and "findMaxDataLength X ops = Inr n"
      and "Meta (ops ! 0) \<noteq> Meta (ops ! 1)
           \<or> (\<exists>dType \<in> set (Meta (ops ! 0)).
                 fst (DecomposeDataType dType)
                   \<notin> {DataTypeMajorUint, DataTypeMajorInt, DataTypeMajorFixedBytes})"
  shows "extractOps X ops = Inl ErrorCodeInvalidDataType"
proof -
  from assms(3) have "\<not> metaAllEq (ops ! 0) (ops ! 1) \<or> \<not> metaAllBitOp (ops ! 0)"
    unfolding metaAllEq_def metaAllBitOp_def metaAll_def list_all_iff metaBitOp_iff by blast
  with assms(1,2) show ?thesis by (auto simp: extractOps_def Let_def)
qed

lemma fnBitBin_error:
  "extractOps X (Input ins) = Inl err \<Longrightarrow> fnBitBin X ins bFn = Inl err"
  by (simp add: fnBitBin_def)

lemma fnBitBin_Inr_extract:
  "fnBitBin X ins bFn = Inr res \<Longrightarrow>
     \<exists>n op2. extractOps X (Input ins) = Inr (n, Input ins ! 0, op2) \<and> Meta res = Meta (Input ins ! 0)"
  by (auto simp: fnBitBin_def extractOps_Inr_iff Operand_clone_def split: sum.splits if_splits prod.splits)



lemma ref_findMax_two:
  "ref_findMaxDataLength [uint8Operand [a], uint8Operand [b]] = Inr 1"
  by (simp add: ref_findMaxDataLength_def uint8Operand_def)

lemma ref_toBytes_uint8:
  "0 \<le> k \<Longrightarrow> k < 256 \<Longrightarrow>
     toBytes refX \<lparr>Value = of_int k, Bytes = [], Spare = []\<rparr> (ComposeDataType DataTypeMajorUint 0)
       = Inr [word_of_int k]"
proof -
  assume "0 \<le> k" "k < 256"
  then have "(of_int k :: rat) < 256" "0 \<le> (of_int k :: rat)" by simp_all
  then show ?thesis by (simp add: toBytes_def refX_def ref_DecimalEncode_def)
qed

lemma ref_extract_uint8:
  "extractOps refX [uint8Operand [a], uint8Operand [b]]
     = Inr (1, uint8Operand [a], uint8Operand [b])"
  by (simp add: extractOps_def refX_def ref_findMaxDataLength_def metaAllEq_def metaAllBitOp_def
        metaAll_def metaBitOp_def uint8Operand_def)

lemma ref_bitBin_uint8:
  assumes "extractOps refX ops = Inr (1, uint8Operand [10], uint8Operand [12])"
  shows "fnBitBin refX \<lparr>Input = ops\<rparr> bFn = Inr (uint8Operand [of_int (uint (bFn 10 12))])"
proof -
  have t10: "toBytes refX \<lparr>Value = 10, Bytes = [], Spare = []\<rparr> (ComposeDataType DataTypeMajorUint 0) = Inr [10]"
    using ref_toBytes_uint8 [of 10] by simp
  have t12: "toBytes refX \<lparr>Value = 12, Bytes = [], Spare = []\<rparr> (ComposeDataType DataTypeMajorUint 0) = Inr [12]"
    using ref_toBytes_uint8 [of 12] by simp
  have c: "Raw_bitBinOp refX \<lparr>Value = 10, Bytes = [], Spare = []\<rparr> \<lparr>Value = 12, Bytes = [], Spare = []\<rparr>
             (ComposeDataType DataTypeMajorUint 0) bFn
           = Inr \<lparr>Value = of_int (uint (bFn 10 12)), Bytes = [], Spare = []\<rparr>"
    by (simp add: Raw_bitBinOp_def t10 t12 ref_decode_byte)
  have t: "Tuple_bitBinOp refX [\<lparr>Value = 10, Bytes = [], Spare = []\<rparr>] [\<lparr>Value = 12, Bytes = [], Spare = []\<rparr>]
             [ComposeDataType DataTypeMajorUint 0] bFn
           = Inr [\<lparr>Value = of_int (uint (bFn 10 12)), Bytes = [], Spare = []\<rparr>]"
    by (simp add: Tuple_bitBinOp_def elemAt_def c)
  show ?thesis
    by (simp add: fnBitBin_def assms)
       (simp add: uint8Operand_def elemAt_def t Operand_clone_def)
qed

lemma ref_bit_examples:
  "fnBitAnd refX ctx \<lparr>Input = [uint8Operand [10], uint8Operand [12]]\<rparr> 1 = Inr (uint8Operand [8])"
  "fnBitOr refX ctx \<lparr>Input = [uint8Operand [10], uint8Operand [12]]\<rparr> 1 = Inr (uint8Operand [14])"
  "fnBitXor refX ctx \<lparr>Input = [uint8Operand [10], uint8Operand [12]]\<rparr> 1 = Inr (uint8Operand [6])"
  by (simp_all add: fnBitAnd_def fnBitOr_def fnBitXor_def ref_bitBin_uint8 [OF ref_extract_uint8])

lemma extractOps_rows_error:
  "2 \<le> length ops \<Longrightarrow> findMaxDataLength X ops = Inl err \<Longrightarrow> extractOps X ops = Inl err"
  by (simp add: extractOps_def)

lemma ref_extract_third_bytes:
  "extractOps refX [uint8Operand [a], uint8Operand [b], bytesOperand c]
     = Inr (1, uint8Operand [a], uint8Operand [b])"
  by (simp add: extractOps_def refX_def ref_findMaxDataLength_def metaAllEq_def metaAllBitOp_def
        metaAll_def metaBitOp_def uint8Operand_def bytesOperand_def)

lemma ref_findMax_rows_differ:
  "findMaxDataLength refX [uint8Operand [a, b], c] = Inl ErrorCodeIndexOutOfRange"
  if "\<not> IsImmediate c" "length (Data c) = 1"
  using that by (simp add: refX_def ref_findMaxDataLength_def uint8Operand_def)

text \<open>
  Claim C4, as amended. Each of \<open>fnBitAnd\<close>, \<open>fnBitOr\<close> and \<open>fnBitXor\<close> fails with the
  invalid-operand-count error when it is given fewer than two operands. Given at least two
  operands, an error of \<^verbatim>\<open>findMaxDataLength\<close> on the row counts of the operands is returned
  as it is; when \<^verbatim>\<open>findMaxDataLength\<close> accepts the row counts, the call fails with the
  invalid-data-type error when the schemas of the first two operands differ or when a
  column of either is not of the unsigned integer, signed integer or fixed-length bytes
  kind (so for an address or dynamic-length bytes column). A call that succeeds was given
  at least two operands, the first two with identical schemas and bit-operable columns only.
  The claim as written asks for exactly two operands and gives every schema mismatch the
  invalid-data-type error: the code tests for fewer than two operands, checks the schemas
  of the first two only, and checks the row counts before the schemas.
\<close>

theorem bitBin_guards:
  "\<forall>f \<in> {fnBitAnd, fnBitOr, fnBitXor}.
     (length (Input ins) < 2 \<longrightarrow> f X ctx ins len = Inl ErrorCodeInvalidOperandNum)
   \<and> (2 \<le> length (Input ins) \<and> findMaxDataLength X (Input ins) = Inl err
       \<longrightarrow> f X ctx ins len = Inl err)
   \<and> (2 \<le> length (Input ins) \<and> findMaxDataLength X (Input ins) = Inr n
        \<and> (Meta (Input ins ! 0) \<noteq> Meta (Input ins ! 1)
            \<or> (\<exists>dType \<in> set (Meta (Input ins ! 0)).
                  fst (DecomposeDataType dType)
                    \<notin> {DataTypeMajorUint, DataTypeMajorInt, DataTypeMajorFixedBytes})
            \<or> (\<exists>dType \<in> set (Meta (Input ins ! 1)).
                  fst (DecomposeDataType dType)
                    \<notin> {DataTypeMajorUint, DataTypeMajorInt, DataTypeMajorFixedBytes}))
       \<longrightarrow> f X ctx ins len = Inl ErrorCodeInvalidDataType)
   \<and> (f X ctx ins len = Inr res
       \<longrightarrow> 2 \<le> length (Input ins) \<and> Meta (Input ins ! 0) = Meta (Input ins ! 1)
           \<and> (\<forall>dType \<in> set (Meta (Input ins ! 0)).
                 fst (DecomposeDataType dType)
                   \<in> {DataTypeMajorUint, DataTypeMajorInt, DataTypeMajorFixedBytes}))"
proof -
  have g: "(length (Input ins) < 2 \<longrightarrow> fnBitBin X ins bFn = Inl ErrorCodeInvalidOperandNum)
   \<and> (2 \<le> length (Input ins) \<and> findMaxDataLength X (Input ins) = Inl err
       \<longrightarrow> fnBitBin X ins bFn = Inl err)
   \<and> (2 \<le> length (Input ins) \<and> findMaxDataLength X (Input ins) = Inr n
        \<and> (Meta (Input ins ! 0) \<noteq> Meta (Input ins ! 1)
            \<or> (\<exists>dType \<in> set (Meta (Input ins ! 0)).
                  fst (DecomposeDataType dType)
                    \<notin> {DataTypeMajorUint, DataTypeMajorInt, DataTypeMajorFixedBytes})
            \<or> (\<exists>dType \<in> set (Meta (Input ins ! 1)).
                  fst (DecomposeDataType dType)
                    \<notin> {DataTypeMajorUint, DataTypeMajorInt, DataTypeMajorFixedBytes}))
       \<longrightarrow> fnBitBin X ins bFn = Inl ErrorCodeInvalidDataType)
   \<and> (fnBitBin X ins bFn = Inr res
       \<longrightarrow> 2 \<le> length (Input ins) \<and> Meta (Input ins ! 0) = Meta (Input ins ! 1)
           \<and> (\<forall>dType \<in> set (Meta (Input ins ! 0)).
                 fst (DecomposeDataType dType)
                   \<in> {DataTypeMajorUint, DataTypeMajorInt, DataTypeMajorFixedBytes}))" for bFn
  proof (intro conjI impI)
    assume "length (Input ins) < 2"
    then have "extractOps X (Input ins) = Inl ErrorCodeInvalidOperandNum"
      by (rule extractOps_arity)
    then show "fnBitBin X ins bFn = Inl ErrorCodeInvalidOperandNum"
      by (rule fnBitBin_error)
  next
    assume "2 \<le> length (Input ins) \<and> findMaxDataLength X (Input ins) = Inl err"
    then have "extractOps X (Input ins) = Inl err"
      using extractOps_rows_error [of "Input ins" X err] by blast
    then show "fnBitBin X ins bFn = Inl err"
      by (rule fnBitBin_error)
  next
    assume h: "2 \<le> length (Input ins) \<and> findMaxDataLength X (Input ins) = Inr n
        \<and> (Meta (Input ins ! 0) \<noteq> Meta (Input ins ! 1)
            \<or> (\<exists>dType \<in> set (Meta (Input ins ! 0)).
                  fst (DecomposeDataType dType)
                    \<notin> {DataTypeMajorUint, DataTypeMajorInt, DataTypeMajorFixedBytes})
            \<or> (\<exists>dType \<in> set (Meta (Input ins ! 1)).
                  fst (DecomposeDataType dType)
                    \<notin> {DataTypeMajorUint, DataTypeMajorInt, DataTypeMajorFixedBytes}))"
    have "Meta (Input ins ! 0) \<noteq> Meta (Input ins ! 1)
            \<or> (\<exists>dType \<in> set (Meta (Input ins ! 0)).
                  fst (DecomposeDataType dType)
                    \<notin> {DataTypeMajorUint, DataTypeMajorInt, DataTypeMajorFixedBytes})"
    proof (cases "Meta (Input ins ! 0) = Meta (Input ins ! 1)")
      case True
      with h show ?thesis by (simp only:) blast
    next
      case False
      then show ?thesis by blast
    qed
    with h have "extractOps X (Input ins) = Inl ErrorCodeInvalidDataType"
      using extractOps_type_error [of "Input ins" X n] by blast
    then show "fnBitBin X ins bFn = Inl ErrorCodeInvalidDataType"
      by (rule fnBitBin_error)
  next
    assume "fnBitBin X ins bFn = Inr res"
    from fnBitBin_Inr_extract [OF this] obtain m op2
      where "extractOps X (Input ins) = Inr (m, Input ins ! 0, op2)" by blast
    then have e: "2 \<le> length (Input ins) \<and> op2 = Input ins ! 1
                  \<and> Meta (Input ins ! 0) = Meta op2
                  \<and> (\<forall>dType \<in> set (Meta (Input ins ! 0)).
                       fst (DecomposeDataType dType)
                         \<in> {DataTypeMajorUint, DataTypeMajorInt, DataTypeMajorFixedBytes})"
      unfolding extractOps_Inr_iff by blast
    from e show "2 \<le> length (Input ins)" by blast
    from e show "Meta (Input ins ! 0) = Meta (Input ins ! 1)" by blast
    from e show "\<forall>dType \<in> set (Meta (Input ins ! 0)).
                 fst (DecomposeDataType dType)
                   \<in> {DataTypeMajorUint, DataTypeMajorInt, DataTypeMajorFixedBytes}" by blast
  qed
  show ?thesis
  proof (rule ballI)
    fix f assume "f \<in> {fnBitAnd, fnBitOr, fnBitXor}"
    then consider "f = fnBitAnd" | "f = fnBitOr" | "f = fnBitXor" by blast
    then obtain bFn where eq: "f X ctx ins len = fnBitBin X ins bFn"
      by cases (simp_all add: fnBitAnd_def fnBitOr_def fnBitXor_def)
    show "(length (Input ins) < 2 \<longrightarrow> f X ctx ins len = Inl ErrorCodeInvalidOperandNum)
   \<and> (2 \<le> length (Input ins) \<and> findMaxDataLength X (Input ins) = Inl err
       \<longrightarrow> f X ctx ins len = Inl err)
   \<and> (2 \<le> length (Input ins) \<and> findMaxDataLength X (Input ins) = Inr n
        \<and> (Meta (Input ins ! 0) \<noteq> Meta (Input ins ! 1)
            \<or> (\<exists>dType \<in> set (Meta (Input ins ! 0)).
                  fst (DecomposeDataType dType)
                    \<notin> {DataTypeMajorUint, DataTypeMajorInt, DataTypeMajorFixedBytes})
            \<or> (\<exists>dType \<in> set (Meta (Input ins ! 1)).
                  fst (DecomposeDataType dType)
                    \<notin> {DataTypeMajorUint, DataTypeMajorInt, DataTypeMajorFixedBytes}))
       \<longrightarrow> f X ctx ins len = Inl ErrorCodeInvalidDataType)
   \<and> (f X ctx ins len = Inr res
       \<longrightarrow> 2 \<le> length (Input ins) \<and> Meta (Input ins ! 0) = Meta (Input ins ! 1)
           \<and> (\<forall>dType \<in> set (Meta (Input ins ! 0)).
                 fst (DecomposeDataType dType)
                   \<in> {DataTypeMajorUint, DataTypeMajorInt, DataTypeMajorFixedBytes}))"
      unfolding eq by (rule g)
  qed
qed

theorem bitBin_guards_witness:
  "fnBitAnd refX ctx1000 \<lparr>Input = [uint8Operand [10]]\<rparr> 1 = Inl ErrorCodeInvalidOperandNum
   \<and> findMaxDataLength refX [uint8Operand [10, 11], uint8Operand [12]]
       = Inl ErrorCodeIndexOutOfRange
   \<and> fnBitAnd refX ctx1000 \<lparr>Input = [uint8Operand [10, 11], uint8Operand [12]]\<rparr> 2
       = Inl ErrorCodeIndexOutOfRange
   \<and> findMaxDataLength refX [bytesOperand helloWorld, bytesOperand helloWorld] = Inr 1
   \<and> fnBitOr refX ctx1000 \<lparr>Input = [bytesOperand helloWorld, bytesOperand helloWorld]\<rparr> 1
       = Inl ErrorCodeInvalidDataType
   \<and> fnBitXor refX ctx1000 \<lparr>Input = [uint8Operand [10], uint8Operand [12]]\<rparr> 1
       = Inr (uint8Operand [6])
   \<and> Meta (uint8Operand [10]) = Meta (uint8Operand [12])"
proof -
  let ?a = "\<lparr>Input = [uint8Operand [10]]\<rparr>"
  let ?b = "\<lparr>Input = [bytesOperand helloWorld, bytesOperand helloWorld]\<rparr>"
  let ?c = "\<lparr>Input = [uint8Operand [10], uint8Operand [12]]\<rparr>"
  let ?d = "\<lparr>Input = [uint8Operand [10, 11], uint8Operand [12]]\<rparr>"
  have fm: "findMaxDataLength refX [bytesOperand helloWorld, bytesOperand helloWorld] = Inr 1"
    by (simp add: refX_def ref_findMaxDataLength_def bytesOperand_def)
  have fd: "findMaxDataLength refX [uint8Operand [10, 11], uint8Operand [12]]
              = Inl ErrorCodeIndexOutOfRange"
    by (rule ref_findMax_rows_differ) (simp_all add: uint8Operand_def)
  have ha: "length (Input ?a) < 2" by simp
  have hb: "2 \<le> length (Input ?b) \<and> findMaxDataLength refX (Input ?b) = Inr 1
        \<and> (Meta (Input ?b ! 0) \<noteq> Meta (Input ?b ! 1)
            \<or> (\<exists>dType \<in> set (Meta (Input ?b ! 0)).
                  fst (DecomposeDataType dType)
                    \<notin> {DataTypeMajorUint, DataTypeMajorInt, DataTypeMajorFixedBytes})
            \<or> (\<exists>dType \<in> set (Meta (Input ?b ! 1)).
                  fst (DecomposeDataType dType)
                    \<notin> {DataTypeMajorUint, DataTypeMajorInt, DataTypeMajorFixedBytes}))"
    using fm by (simp add: bytesOperand_def)
  have hc: "fnBitXor refX ctx1000 ?c 1 = Inr (uint8Operand [6])"
    by (rule ref_bit_examples)
  have hd: "2 \<le> length (Input ?d)
              \<and> findMaxDataLength refX (Input ?d) = Inl ErrorCodeIndexOutOfRange"
    using fd by simp
  from bitBin_guards [where ins = ?a and X = refX and ctx = ctx1000 and len = 1] ha
  have 1: "fnBitAnd refX ctx1000 ?a 1 = Inl ErrorCodeInvalidOperandNum" by blast
  from bitBin_guards [where ins = ?b and X = refX and ctx = ctx1000 and len = 1 and n = 1] hb
  have 2: "fnBitOr refX ctx1000 ?b 1 = Inl ErrorCodeInvalidDataType" by blast
  from bitBin_guards [where ins = ?c and X = refX and ctx = ctx1000 and len = 1
                        and res = "uint8Operand [6]"] hc
  have 3: "Meta (Input ?c ! 0) = Meta (Input ?c ! 1)" by blast
  then have 3: "Meta (uint8Operand [10]) = Meta (uint8Operand [12])" by simp
  from bitBin_guards [where ins = ?d and X = refX and ctx = ctx1000 and len = 2
                        and err = ErrorCodeIndexOutOfRange] hd
  have 4: "fnBitAnd refX ctx1000 ?d 2 = Inl ErrorCodeIndexOutOfRange" by blast
  from 1 fd 4 fm 2 hc 3 show ?thesis by blast
qed

theorem bitBin_guards_counterexample:
  "length [uint8Operand [10], uint8Operand [12], bytesOperand helloWorld] \<noteq> 2
   \<and> Meta (bytesOperand helloWorld) \<noteq> Meta (uint8Operand [10])
   \<and> fnBitAnd refX ctx1000
        \<lparr>Input = [uint8Operand [10], uint8Operand [12], bytesOperand helloWorld]\<rparr> 1
       = Inr (uint8Operand [8])
   \<and> Meta (uint8Operand [10, 11]) \<noteq> Meta (bytesOperand helloWorld)
   \<and> fnBitAnd refX ctx1000
        \<lparr>Input = [uint8Operand [10, 11], bytesOperand helloWorld]\<rparr> 2
       = Inl ErrorCodeIndexOutOfRange"
proof -
  have 1: "Meta (bytesOperand helloWorld) \<noteq> Meta (uint8Operand [10])"
          "Meta (uint8Operand [10, 11]) \<noteq> Meta (bytesOperand helloWorld)"
    by (simp_all add: bytesOperand_def uint8Operand_def)
  have 2: "fnBitAnd refX ctx1000
        \<lparr>Input = [uint8Operand [10], uint8Operand [12], bytesOperand helloWorld]\<rparr> 1
       = Inr (uint8Operand [8])"
    by (simp add: fnBitAnd_def ref_bitBin_uint8 [OF ref_extract_third_bytes])
  have "findMaxDataLength refX [uint8Operand [10, 11], bytesOperand helloWorld]
          = Inl ErrorCodeIndexOutOfRange"
    by (rule ref_findMax_rows_differ) (simp_all add: bytesOperand_def)
  then have "extractOps refX [uint8Operand [10, 11], bytesOperand helloWorld]
          = Inl ErrorCodeIndexOutOfRange"
    by (intro extractOps_rows_error) simp_all
  then have 3: "fnBitAnd refX ctx1000
        \<lparr>Input = [uint8Operand [10, 11], bytesOperand helloWorld]\<rparr> 2
       = Inl ErrorCodeIndexOutOfRange"
    by (simp add: fnBitAnd_def fnBitBin_def)
  from 1 2 3 show ?thesis by simp
qed










end
